theory Spec2Isabelle
  imports Complex_Main "HOL-Library.Product_Lexorder" "HOL-Library.Multiset"
begin

section \<open>Python values read from JSON\<close>

text \<open>
  The pipeline of \<^verbatim>\<open>dk_pipeline.py\<close> works on documents returned by
  \<^verbatim>\<open>json.load\<close>: None, booleans, integers, floats, strings, lists and dicts with
  string keys. A finite float is the rational number it denotes (NaN and the infinities are
  not JSON). A Python string is a list of code points; \<^typ>\<open>string\<close> holds the code
  points up to U+00FF, one \<^typ>\<open>char\<close> each, so the registered-trademark glyph U+00AE is
  the single character \<open>CHR 0xAE\<close>. A dict read from a file is an association list in
  insertion order; a key is looked up with \<^const>\<open>map_of\<close>.
\<close>

datatype json =
    JNull
  | JBool bool
  | JInt int
  | JFloat rat
  | JStr string
  | JArr "json list"
  | JObj "(string \<times> json) list"

text \<open>The exceptions the modelled code can raise.\<close>

datatype error =
    AttributeError
  | TypeError
  | KeyError
  | IndexError
  | ValueError
  | RuntimeError
  | AssertionError

definition bind_err :: "error + 'a \<Rightarrow> ('a \<Rightarrow> error + 'b) \<Rightarrow> error + 'b" where
  "bind_err m f = (case m of Inl e \<Rightarrow> Inl e | Inr x \<Rightarrow> f x)"

text \<open>Running a fallible step over a list, left to right, stopping at the first raise.\<close>

fun map_err :: "('a \<Rightarrow> error + 'b) \<Rightarrow> 'a list \<Rightarrow> error + 'b list" where
  "map_err f [] = Inr []"
| "map_err f (x # xs) =
     bind_err (f x) (\<lambda>y. bind_err (map_err f xs) (\<lambda>ys. Inr (y # ys)))"

text \<open>Truth value of a Python object (\<^verbatim>\<open>if x\<close>, \<^verbatim>\<open>x or y\<close>, \<^verbatim>\<open>not x\<close>).\<close>

fun truthy :: "json \<Rightarrow> bool" where
  "truthy JNull = False"
| "truthy (JBool b) = b"
| "truthy (JInt n) = (n \<noteq> 0)"
| "truthy (JFloat q) = (q \<noteq> 0)"
| "truthy (JStr s) = (s \<noteq> [])"
| "truthy (JArr xs) = (xs \<noteq> [])"
| "truthy (JObj kvs) = (kvs \<noteq> [])"

text \<open>\<^verbatim>\<open>x or y\<close> on values that are already computed.\<close>

definition py_or :: "json \<Rightarrow> json \<Rightarrow> json" where
  "py_or x y = (if truthy x then x else y)"

text \<open>
  \<^verbatim>\<open>x.get(k, default)\<close>: only a dict has the method; \<^verbatim>\<open>x.get(k)\<close> is
  \<open>py_get x k JNull\<close>.
\<close>

fun py_get :: "json \<Rightarrow> string \<Rightarrow> json \<Rightarrow> error + json" where
  "py_get (JObj kvs) k dflt = Inr (case map_of kvs k of None \<Rightarrow> dflt | Some v \<Rightarrow> v)"
| "py_get _ k dflt = Inl AttributeError"

text \<open>
  \<^verbatim>\<open>for x in v\<close>: a list gives its elements, a dict its keys, a string its
  characters; nothing else can be iterated.
\<close>

fun py_iter :: "json \<Rightarrow> error + json list" where
  "py_iter (JArr xs) = Inr xs"
| "py_iter (JObj kvs) = Inr (map (\<lambda>kv. JStr (fst kv)) kvs)"
| "py_iter (JStr s) = Inr (map (\<lambda>c. JStr [c]) s)"
| "py_iter _ = Inl TypeError"

text \<open>
  Keys of Python sets and dicts. Equal objects are one key: \<^verbatim>\<open>True == 1 == 1.0\<close>,
  so the numbers and booleans are keyed by their value; lists and dicts cannot be hashed.
  A tuple is hashed through its components.
\<close>

datatype hkey =
    HNone
  | HNum rat
  | HStr string
  | HTuple "hkey list"

fun hash_key :: "json \<Rightarrow> error + hkey" where
  "hash_key JNull = Inr HNone"
| "hash_key (JBool b) = Inr (HNum (if b then 1 else 0))"
| "hash_key (JInt n) = Inr (HNum (of_int n))"
| "hash_key (JFloat q) = Inr (HNum q)"
| "hash_key (JStr s) = Inr (HStr s)"
| "hash_key (JArr xs) = Inl TypeError"
| "hash_key (JObj kvs) = Inl TypeError"

definition hash_tuple :: "json list \<Rightarrow> error + hkey" where
  "hash_tuple xs = bind_err (map_err hash_key xs) (\<lambda>hs. Inr (HTuple hs))"

text \<open>
  A dict the code builds and only reads by key is a map from keys to values;
  \<^verbatim>\<open>m.get(k)\<close> gives None for an absent key.
\<close>

definition dict_get :: "(hkey \<rightharpoonup> json) \<Rightarrow> hkey \<Rightarrow> json" where
  "dict_get m h = (case m h of None \<Rightarrow> JNull | Some v \<Rightarrow> v)"

definition dict_get_default :: "(hkey \<rightharpoonup> json) \<Rightarrow> hkey \<Rightarrow> json \<Rightarrow> json" where
  "dict_get_default m h dflt = (case m h of None \<Rightarrow> dflt | Some v \<Rightarrow> v)"

section \<open>Document classifier\<close>

definition has_key :: "(string \<times> json) list \<Rightarrow> string \<Rightarrow> bool" where
  "has_key kvs k = (map_of kvs k \<noteq> None)"

fun classify_json_doc :: "json \<Rightarrow> string" where
  "classify_json_doc (JArr (JObj e0 # rest)) =
     (if has_key e0 ''invoiceDetails'' \<or> has_key e0 ''invoices'' \<or> has_key e0 ''boxes''
      then ''invoice''
      else if has_key e0 ''productVariations'' \<or> has_key e0 ''parameters''
      then ''product''
      else ''unknown'')"
| "classify_json_doc _ = ''unknown''"

section \<open>Strings\<close>

text \<open>
  The string methods the code calls: \<^verbatim>\<open>sub in s\<close>, \<^verbatim>\<open>s[s.index(sub):]\<close>,
  \<^verbatim>\<open>s.replace(old, new)\<close>, \<^verbatim>\<open>s.strip()\<close>, \<^verbatim>\<open>s.lower()\<close> and
  \<^verbatim>\<open>sep.join(xs)\<close>, on code points up to U+00FF.
\<close>

definition starts_with :: "string \<Rightarrow> string \<Rightarrow> bool" where
  "starts_with s sub = (take (length sub) s = sub)"

fun str_contains :: "string \<Rightarrow> string \<Rightarrow> bool" where
  "str_contains sub [] = (sub = [])"
| "str_contains sub (c # cs) = (starts_with (c # cs) sub \<or> str_contains sub cs)"

fun str_from :: "string \<Rightarrow> string \<Rightarrow> string" where
  "str_from sub [] = []"
| "str_from sub (c # cs) = (if starts_with (c # cs) sub then c # cs else str_from sub cs)"

fun str_replace :: "string \<Rightarrow> string \<Rightarrow> string \<Rightarrow> string" where
  "str_replace old new [] = (if old = [] then new else [])"
| "str_replace old new (c # cs) =
     (if old = [] then new @ c # str_replace old new cs
      else if starts_with (c # cs) old
      then new @ str_replace old new (drop (length old) (c # cs))
      else c # str_replace old new cs)"

definition py_isspace :: "char \<Rightarrow> bool" where
  "py_isspace c = (let n = (of_char c :: nat) in
     (9 \<le> n \<and> n \<le> 13) \<or> (28 \<le> n \<and> n \<le> 32) \<or> n = 133 \<or> n = 160)"

definition str_strip :: "string \<Rightarrow> string" where
  "str_strip s = rev (dropWhile py_isspace (rev (dropWhile py_isspace s)))"

definition upper_chars :: string where
  "upper_chars = ''ABCDEFGHIJKLMNOPQRSTUVWXYZ'' @
     [CHR 0xC0, CHR 0xC1, CHR 0xC2, CHR 0xC3, CHR 0xC4, CHR 0xC5, CHR 0xC6, CHR 0xC7,
      CHR 0xC8, CHR 0xC9, CHR 0xCA, CHR 0xCB, CHR 0xCC, CHR 0xCD, CHR 0xCE, CHR 0xCF,
      CHR 0xD0, CHR 0xD1, CHR 0xD2, CHR 0xD3, CHR 0xD4, CHR 0xD5, CHR 0xD6,
      CHR 0xD8, CHR 0xD9, CHR 0xDA, CHR 0xDB, CHR 0xDC, CHR 0xDD, CHR 0xDE]"

definition lower_chars :: string where
  "lower_chars = ''abcdefghijklmnopqrstuvwxyz'' @
     [CHR 0xE0, CHR 0xE1, CHR 0xE2, CHR 0xE3, CHR 0xE4, CHR 0xE5, CHR 0xE6, CHR 0xE7,
      CHR 0xE8, CHR 0xE9, CHR 0xEA, CHR 0xEB, CHR 0xEC, CHR 0xED, CHR 0xEE, CHR 0xEF,
      CHR 0xF0, CHR 0xF1, CHR 0xF2, CHR 0xF3, CHR 0xF4, CHR 0xF5, CHR 0xF6,
      CHR 0xF8, CHR 0xF9, CHR 0xFA, CHR 0xFB, CHR 0xFC, CHR 0xFD, CHR 0xFE]"

definition lower_char :: "char \<Rightarrow> char" where
  "lower_char c = (case map_of (zip upper_chars lower_chars) c of None \<Rightarrow> c | Some l \<Rightarrow> l)"

definition str_lower :: "string \<Rightarrow> string" where
  "str_lower s = map lower_char s"

fun str_join :: "string \<Rightarrow> string list \<Rightarrow> string" where
  "str_join sep [] = []"
| "str_join sep [x] = x"
| "str_join sep (x # y # ys) = x @ sep @ str_join sep (y # ys)"

lemma bind_err_cong [fundef_cong]:
  "m = m' \<Longrightarrow> (\<And>x. m' = Inr x \<Longrightarrow> f x = f' x) \<Longrightarrow> bind_err m f = bind_err m' f'"
  by (cases m') (simp_all add: bind_err_def)

lemma map_err_cong [fundef_cong]:
  "xs = ys \<Longrightarrow> (\<And>x. x \<in> set ys \<Longrightarrow> f x = g x) \<Longrightarrow> map_err f xs = map_err g ys"
  by (induction ys arbitrary: xs) (auto simp: bind_err_def split: sum.splits)

lemma size_map_of:
  "map_of kvs k = Some v \<Longrightarrow> size v < Suc (size_list (size_prod (\<lambda>_. 0) size) kvs)"
  by (induction kvs) (auto split: if_splits)

lemma size_py_get:
  "py_get c k (JArr []) = Inr v \<Longrightarrow> py_iter v = Inr xs \<Longrightarrow> x \<in> set xs \<Longrightarrow> size x < size c"
proof (cases c)
  case (JObj kvs)
  assume g: "py_get c k (JArr []) = Inr v" and i: "py_iter v = Inr xs" and x: "x \<in> set xs"
  have c_pos: "0 < size c" using JObj by simp
  show ?thesis
  proof (cases "map_of kvs k")
    case None
    with g JObj have "v = JArr []" by simp
    with i x show ?thesis by simp
  next
    case (Some w)
    with g JObj have vw: "v = w" by simp
    from Some have lt: "size v < size c" using size_map_of [of kvs k w] JObj vw by simp
    show ?thesis
    proof (cases v)
      case (JArr ys)
      with i x have "x \<in> set ys" by simp
      then have "size x \<le> size_list size ys" by (simp add: size_list_estimation')
      with JArr lt show ?thesis by simp
    qed (use i x c_pos in auto)
  qed
qed simp_all

function walk :: "json \<Rightarrow> error + json list" where
  "walk c =
     (if \<not> truthy c then Inr []
      else bind_err (py_get c ''name'' (JStr [])) (\<lambda>name.
           bind_err (py_get c ''childCategories'' (JArr [])) (\<lambda>children.
           bind_err (py_iter children) (\<lambda>ccs.
           bind_err (map_err walk ccs) (\<lambda>rest.
           Inr (name # concat rest))))))"
  by pat_completeness auto
termination
  apply (relation "measure size")
   apply simp
  apply (simp add: size_py_get)
  done

section \<open>Product attributes\<close>

definition MCU_PROMOTED_PARAM_TEXTS :: "string list" where
  "MCU_PROMOTED_PARAM_TEXTS = [''Core Processor'', ''Core Size'', ''Speed'', ''Program Memory Size'']"

text \<open>\<^verbatim>\<open>x[0]\<close>\<close>

fun py_index0 :: "json \<Rightarrow> error + json" where
  "py_index0 (JArr []) = Inl IndexError"
| "py_index0 (JArr (x # xs)) = Inr x"
| "py_index0 (JStr []) = Inl IndexError"
| "py_index0 (JStr (c # cs)) = Inr (JStr [c])"
| "py_index0 (JObj kvs) = Inl KeyError"
| "py_index0 _ = Inl TypeError"

definition category_t2 :: "json \<Rightarrow> error + json" where
  "category_t2 prd =
     (if \<not> truthy prd then Inr (JStr [])
      else bind_err (py_get prd ''category'' JNull) (\<lambda>c.
           let cat = py_or c (JObj []) in
           bind_err (py_get cat ''childCategories'' JNull) (\<lambda>ch.
           let children = py_or ch (JArr []) in
           if truthy children
           then bind_err (py_index0 children) (\<lambda>c0.
                bind_err (py_get c0 ''name'' (JStr [])) (\<lambda>n.
                if truthy n then Inr n else py_get cat ''name'' (JStr [])))
           else py_get cat ''name'' (JStr []))))"

text \<open>\<^verbatim>\<open>n.lower()\<close>: a method of strings only.\<close>

fun py_lower :: "json \<Rightarrow> error + string" where
  "py_lower (JStr s) = Inr (str_lower s)"
| "py_lower _ = Inl AttributeError"

definition is_mcu_product :: "json \<Rightarrow> error + bool" where
  "is_mcu_product prd =
     (if \<not> truthy prd then Inr False
      else bind_err (py_get prd ''category'' JNull) (\<lambda>c.
           bind_err (walk c) (\<lambda>names.
           bind_err (map_err py_lower names) (\<lambda>ls.
           let s = str_join '' '' ls in
           Inr (str_contains ''microcontroller'' s
              \<or> str_contains ''application specific microcontrollers'' s)))))"

text \<open>
  The dict comprehension of \<^verbatim>\<open>extract_mcu_fields\<close>: parameter name to value text, a
  later parameter of the same name replacing an earlier one.
\<close>

fun params_dict :: "json list \<Rightarrow> (hkey \<rightharpoonup> json) \<Rightarrow> error + (hkey \<rightharpoonup> json)" where
  "params_dict [] m = Inr m"
| "params_dict (prm # rest) m =
     bind_err (py_get prm ''parameterText'' (JStr [])) (\<lambda>k.
     bind_err (py_get prm ''valueText'' (JStr [])) (\<lambda>v.
     bind_err (hash_key k) (\<lambda>h.
     params_dict rest (m(h \<mapsto> v)))))"

definition mcu_params :: "json \<Rightarrow> error + (hkey \<rightharpoonup> json)" where
  "mcu_params prd =
     bind_err (py_get prd ''parameters'' JNull) (\<lambda>ps.
     bind_err (py_iter (py_or ps (JArr []))) (\<lambda>prms.
     params_dict prms Map.empty))"

text \<open>\<^verbatim>\<open>sub in x\<close> for a string \<open>sub\<close>.\<close>

fun py_contains :: "string \<Rightarrow> json \<Rightarrow> error + bool" where
  "py_contains sub (JStr s) = Inr (str_contains sub s)"
| "py_contains sub (JArr xs) = Inr (JStr sub \<in> set xs)"
| "py_contains sub (JObj kvs) = Inr (has_key kvs sub)"
| "py_contains sub _ = Inl TypeError"

definition reg_glyph :: string where
  "reg_glyph = [CHR 0xAE]"

definition extract_mcu_fields :: "json \<Rightarrow> error + (json \<times> json \<times> json \<times> json)" where
  "extract_mcu_fields prd =
     bind_err (mcu_params prd) (\<lambda>params.
     let core_processor = dict_get_default params (HStr ''Core Processor'') (JStr []);
         clock_speed = dict_get_default params (HStr ''Speed'') (JStr []);
         program_memory_size = dict_get_default params (HStr ''Program Memory Size'') (JStr []);
         core_size = dict_get_default params (HStr ''Core Size'') (JStr []);
         cp = py_or core_processor (JStr [])
     in bind_err (py_contains ''Cortex'' cp) (\<lambda>has_cortex.
        if has_cortex
        then (case cp of
                JStr s \<Rightarrow>
                  let ct = str_from ''Cortex'' s;
                      ct = str_strip (str_replace reg_glyph []
                             (str_replace (''Cortex'' @ reg_glyph) ''Cortex'' ct))
                  in Inr (core_processor, JStr ct, clock_speed, program_memory_size)
              | _ \<Rightarrow> Inl AttributeError)
        else bind_err (py_contains ''AVR'' cp) (\<lambda>has_avr.
             let core_type = (if has_avr then JStr ''AVR'' else py_or core_size cp)
             in Inr (core_processor, core_type, clock_speed, program_memory_size))))"

text \<open>
  The dict \<^verbatim>\<open>out\<close> of \<^verbatim>\<open>build_other_params_dict\<close> is serialised later, so its order
  and its key objects matter: an association list in insertion order, where storing under a
  key that is already there (an equal key) replaces the value and keeps the first key object
  and its place.
\<close>

type_synonym pydict = "(json \<times> json) list"

fun dict_store :: "hkey \<Rightarrow> json \<Rightarrow> json \<Rightarrow> pydict \<Rightarrow> pydict" where
  "dict_store h k v [] = [(k, v)]"
| "dict_store h k v ((k', v') # d) =
     (if hash_key k' = Inr h then (k', v) # d else (k', v') # dict_store h k v d)"

definition dict_setitem :: "pydict \<Rightarrow> json \<Rightarrow> json \<Rightarrow> error + pydict" where
  "dict_setitem d k v = bind_err (hash_key k) (\<lambda>h. Inr (dict_store h k v d))"

definition dict_lookup :: "pydict \<Rightarrow> hkey \<Rightarrow> json option" where
  "dict_lookup d h = map_of (map (\<lambda>kv. (hash_key (fst kv), snd kv)) d) (Inr h)"

fun other_params_loop :: "json list \<Rightarrow> pydict \<Rightarrow> error + pydict" where
  "other_params_loop [] out = Inr out"
| "other_params_loop (prm # rest) out =
     bind_err (py_get prm ''parameterText'' (JStr [])) (\<lambda>k.
     if k \<in> set (map JStr MCU_PROMOTED_PARAM_TEXTS) then other_params_loop rest out
     else bind_err (py_get prm ''valueText'' (JStr [])) (\<lambda>v.
          bind_err (dict_setitem out k v) (\<lambda>out'.
          other_params_loop rest out')))"

definition build_other_params_dict :: "json \<Rightarrow> error + pydict" where
  "build_other_params_dict prd =
     (if \<not> truthy prd then Inr []
      else bind_err (py_get prd ''parameters'' (JArr [])) (\<lambda>ps.
           bind_err (py_iter ps) (\<lambda>prms.
           other_params_loop prms [])))"

declare walk.simps [simp del]

section \<open>Identity keys\<close>

text \<open>
  The key of an invoice line item, as \<^verbatim>\<open>iter_detail_keys\<close> and \<^verbatim>\<open>build_rows\<close> both
  compute it: the pair of invoiceId and detailId when neither is None, else a tuple of
  five fields. The tuple is hashed as soon as it is built (put into a set, or tested
  against one).
\<close>

definition detail_key :: "json \<Rightarrow> error + hkey" where
  "detail_key d =
     bind_err (py_get d ''invoiceId'' JNull) (\<lambda>inv_id.
     bind_err (py_get d ''detailId'' JNull) (\<lambda>det_id.
     if inv_id \<noteq> JNull \<and> det_id \<noteq> JNull then hash_tuple [inv_id, det_id]
     else bind_err (py_get d ''digiKeyProductNumber'' JNull) (\<lambda>dk.
          bind_err (py_get d ''manufacturerProductNumber'' JNull) (\<lambda>mpn.
          bind_err (py_get d ''quantityShipped'' JNull) (\<lambda>qty.
          bind_err (py_get d ''extendedPrice'' JNull) (\<lambda>ext.
          hash_tuple [inv_id, dk, mpn, qty, ext]))))))"

definition order_detail_keys :: "json \<Rightarrow> error + hkey list" where
  "order_detail_keys order =
     bind_err (py_get order ''invoiceDetails'' (JArr [])) (\<lambda>ds.
     bind_err (py_iter ds) (\<lambda>dl.
     map_err detail_key dl))"

definition iter_detail_keys :: "json \<Rightarrow> error + hkey list" where
  "iter_detail_keys invoice_doc =
     bind_err (py_iter invoice_doc) (\<lambda>orders.
     bind_err (map_err order_detail_keys orders) (\<lambda>kss.
     Inr (concat kss)))"

fun variation_keys :: "json list \<Rightarrow> error + hkey list" where
  "variation_keys [] = Inr []"
| "variation_keys (v # vs) =
     bind_err (py_get v ''digiKeyProductNumber'' JNull) (\<lambda>dk.
     if truthy dk
     then bind_err (hash_key dk) (\<lambda>h.
          bind_err (variation_keys vs) (\<lambda>hs. Inr (h # hs)))
     else variation_keys vs)"

definition product_dk_keys :: "json \<Rightarrow> error + hkey list" where
  "product_dk_keys p =
     bind_err (py_get p ''productVariations'' (JArr [])) (\<lambda>vs.
     bind_err (py_iter vs) (\<lambda>vl.
     variation_keys vl))"

definition iter_prod_dk_keys :: "json \<Rightarrow> error + hkey list" where
  "iter_prod_dk_keys products_doc =
     bind_err (py_iter products_doc) (\<lambda>ps.
     bind_err (map_err product_dk_keys ps) (\<lambda>kss.
     Inr (concat kss)))"

section \<open>Product lookup\<close>

fun variations_loop :: "json \<Rightarrow> json list \<Rightarrow> (hkey \<rightharpoonup> json) \<Rightarrow> error + (hkey \<rightharpoonup> json)" where
  "variations_loop p [] lut = Inr lut"
| "variations_loop p (v # vs) lut =
     bind_err (py_get v ''digiKeyProductNumber'' JNull) (\<lambda>dk.
     if truthy dk
     then bind_err (hash_key dk) (\<lambda>h.
          variations_loop p vs (if lut h = None then lut(h \<mapsto> p) else lut))
     else variations_loop p vs lut)"

fun products_loop :: "json list \<Rightarrow> (hkey \<rightharpoonup> json) \<Rightarrow> error + (hkey \<rightharpoonup> json)" where
  "products_loop [] lut = Inr lut"
| "products_loop (p # ps) lut =
     bind_err (py_get p ''productVariations'' (JArr [])) (\<lambda>vs.
     bind_err (py_iter vs) (\<lambda>vl.
     bind_err (variations_loop p vl lut) (\<lambda>lut'.
     products_loop ps lut')))"

definition build_prod_by_dk :: "json \<Rightarrow> json \<Rightarrow> error + (hkey \<rightharpoonup> json)" where
  "build_prod_by_dk products_base products_delta =
     bind_err (py_iter products_base) (\<lambda>bs.
     bind_err (products_loop bs Map.empty) (\<lambda>lut.
     bind_err (py_iter products_delta) (\<lambda>ds.
     products_loop ds lut)))"

section \<open>Row projector\<close>

text \<open>
  A cell of the output frame: a value taken from the documents, or the JSON text of a dict
  (\<^verbatim>\<open>json.dumps(other_dict, ensure_ascii=False)\<close>), which is represented by the dict it
  serialises.
\<close>

datatype cell = Val json | Dumps pydict

record row =
  r_detail_key :: hkey
  r_is_new :: bool
  r_qty_bought :: json
  r_description :: json
  r_category :: json
  r_dk_pn :: json
  r_mfr_pn :: json
  r_mfr :: json
  r_qty_shipped :: json
  r_gbp_unit_price :: json
  r_gbp_ext_price :: json
  r_invoice_id :: json
  r_date_shipped :: json
  r_series :: json
  r_product_status :: json
  r_package_type :: json
  r_core_processor :: json
  r_core_type :: json
  r_clock_speed :: json
  r_program_memory_size :: json
  r_other_dict :: pydict
  r_other_parameters :: cell

text \<open>The dict comprehension \<^verbatim>\<open>inv_by_id\<close>: a later invoice of the same id wins.\<close>

fun invoices_dict :: "json list \<Rightarrow> (hkey \<rightharpoonup> json) \<Rightarrow> error + (hkey \<rightharpoonup> json)" where
  "invoices_dict [] m = Inr m"
| "invoices_dict (invc # rest) m =
     bind_err (py_get invc ''invoiceId'' JNull) (\<lambda>i.
     bind_err (hash_key i) (\<lambda>h.
     invoices_dict rest (m(h \<mapsto> invc))))"

text \<open>
  The loop over the variations of the product that looks for the package type:
  \<^verbatim>\<open>v.get("digiKeyProductNumber") == dk\<close>, where \<open>dk\<close> has been hashed to \<open>hdk\<close>
  before, holds when the value is hashable to the same key.
\<close>

fun find_package_type :: "json list \<Rightarrow> hkey \<Rightarrow> error + json" where
  "find_package_type [] hdk = Inr (JStr [])"
| "find_package_type (v # vs) hdk =
     bind_err (py_get v ''digiKeyProductNumber'' JNull) (\<lambda>x.
     if hash_key x = Inr hdk
     then bind_err (py_get v ''packageType'' JNull) (\<lambda>pk.
          py_get (py_or pk (JObj [])) ''name'' (JStr []))
     else find_package_type vs hdk)"

definition product_fields :: "json \<Rightarrow> hkey \<Rightarrow> error + (json \<times> json \<times> json)" where
  "product_fields prd hdk =
     (if truthy prd
      then bind_err (py_get prd ''series'' JNull) (\<lambda>se.
           bind_err (py_get (py_or se (JObj [])) ''name'' (JStr [])) (\<lambda>series.
           bind_err (py_get prd ''productStatus'' JNull) (\<lambda>ps.
           bind_err (py_get (py_or ps (JObj [])) ''status'' (JStr [])) (\<lambda>product_status.
           bind_err (py_get prd ''productVariations'' (JArr [])) (\<lambda>vs.
           bind_err (py_iter vs) (\<lambda>vl.
           bind_err (find_package_type vl hdk) (\<lambda>pt.
           Inr (series, product_status, pt))))))))
      else Inr (JStr [], JStr [], JStr []))"

definition mcu_fields :: "json \<Rightarrow> error + (json \<times> json \<times> json \<times> json)" where
  "mcu_fields prd =
     bind_err (if truthy prd then is_mcu_product prd else Inr False) (\<lambda>mcu.
     if mcu then extract_mcu_fields prd
     else Inr (JStr [], JStr [], JStr [], JStr []))"

text \<open>
  \<^verbatim>\<open>bool(new_detail_keys and key in new_detail_keys)\<close>, for \<^verbatim>\<open>new_detail_keys\<close> that is
  None or a set.
\<close>

definition is_new_flag :: "hkey set option \<Rightarrow> hkey \<Rightarrow> bool" where
  "is_new_flag new_detail_keys key =
     (case new_detail_keys of None \<Rightarrow> False | Some s \<Rightarrow> s \<noteq> {} \<and> key \<in> s)"

text \<open>The body of the loop of \<^verbatim>\<open>build_rows\<close> for a line item whose key is new to \<^verbatim>\<open>seen\<close>.\<close>

definition build_row ::
  "(hkey \<rightharpoonup> json) \<Rightarrow> (hkey \<rightharpoonup> json) \<Rightarrow> bool \<Rightarrow> json \<Rightarrow> hkey \<Rightarrow> error + row" where
  "build_row prod_by_dk inv_by_id is_new d key =
     bind_err (py_get d ''invoiceId'' JNull) (\<lambda>inv_id.
     bind_err (py_get d ''digiKeyProductNumber'' (JStr [])) (\<lambda>dk.
     bind_err (hash_key dk) (\<lambda>hdk.
     bind_err (hash_key inv_id) (\<lambda>hinv.
     let prd = dict_get prod_by_dk hdk;
         invc = dict_get inv_by_id hinv
     in
     bind_err (py_get d ''quantityInitial'' (JStr [])) (\<lambda>qty_bought.
     bind_err (py_get d ''description'' (JStr [])) (\<lambda>description.
     bind_err (category_t2 prd) (\<lambda>category.
     bind_err (py_get d ''manufacturerProductNumber'' (JStr [])) (\<lambda>mfr_pn.
     bind_err (py_get d ''manufacturerName'' (JStr [])) (\<lambda>mfr.
     bind_err (py_get d ''quantityShipped'' (JStr [])) (\<lambda>qty_shipped.
     bind_err (py_get d ''formattedUnitPrice'' (JStr [])) (\<lambda>gbp_unit_price.
     bind_err (py_get d ''formattedExtendedPrice'' (JStr [])) (\<lambda>gbp_ext_price.
     bind_err (if truthy invc then py_get invc ''dateShipped'' (JStr []) else Inr (JStr []))
       (\<lambda>date_shipped.
     bind_err (product_fields prd hdk) (\<lambda>(series, product_status, package_type).
     bind_err (mcu_fields prd) (\<lambda>(cp, ct, clk, pm).
     bind_err (build_other_params_dict prd) (\<lambda>other_dict.
     Inr \<lparr> r_detail_key = key,
           r_is_new = is_new,
           r_qty_bought = qty_bought,
           r_description = description,
           r_category = category,
           r_dk_pn = dk,
           r_mfr_pn = mfr_pn,
           r_mfr = mfr,
           r_qty_shipped = qty_shipped,
           r_gbp_unit_price = gbp_unit_price,
           r_gbp_ext_price = gbp_ext_price,
           r_invoice_id = (if inv_id \<noteq> JNull then inv_id else JStr []),
           r_date_shipped = date_shipped,
           r_series = series,
           r_product_status = product_status,
           r_package_type = package_type,
           r_core_processor = cp,
           r_core_type = ct,
           r_clock_speed = clk,
           r_program_memory_size = pm,
           r_other_dict = other_dict,
           r_other_parameters = Dumps other_dict \<rparr>))))))))))))))))"

fun details_loop ::
  "(hkey \<rightharpoonup> json) \<Rightarrow> (hkey \<rightharpoonup> json) \<Rightarrow> hkey set option \<Rightarrow> json list
     \<Rightarrow> hkey set \<times> row list \<Rightarrow> error + hkey set \<times> row list" where
  "details_loop prod_by_dk inv_by_id new_detail_keys [] st = Inr st"
| "details_loop prod_by_dk inv_by_id new_detail_keys (d # ds) (seen, rows) =
     bind_err (detail_key d) (\<lambda>key.
     if key \<in> seen then details_loop prod_by_dk inv_by_id new_detail_keys ds (seen, rows)
     else bind_err (build_row prod_by_dk inv_by_id (is_new_flag new_detail_keys key) d key)
            (\<lambda>r.
          details_loop prod_by_dk inv_by_id new_detail_keys ds (insert key seen, rows @ [r])))"

fun orders_loop ::
  "(hkey \<rightharpoonup> json) \<Rightarrow> hkey set option \<Rightarrow> json list
     \<Rightarrow> hkey set \<times> row list \<Rightarrow> error + hkey set \<times> row list" where
  "orders_loop prod_by_dk new_detail_keys [] st = Inr st"
| "orders_loop prod_by_dk new_detail_keys (order # orders) st =
     bind_err (py_get order ''invoices'' (JArr [])) (\<lambda>invs.
     bind_err (py_iter invs) (\<lambda>il.
     bind_err (invoices_dict il Map.empty) (\<lambda>inv_by_id.
     bind_err (py_get order ''invoiceDetails'' (JArr [])) (\<lambda>ds.
     bind_err (py_iter ds) (\<lambda>dl.
     bind_err (details_loop prod_by_dk inv_by_id new_detail_keys dl st) (\<lambda>st'.
     orders_loop prod_by_dk new_detail_keys orders st'))))))"

definition build_rows ::
  "json \<Rightarrow> (hkey \<rightharpoonup> json) \<Rightarrow> hkey set option \<Rightarrow> error + row list" where
  "build_rows invoices_doc prod_by_dk new_detail_keys =
     bind_err (py_iter invoices_doc) (\<lambda>orders.
     bind_err (orders_loop prod_by_dk new_detail_keys orders ({}, [])) (\<lambda>st.
     Inr (snd st)))"


section \<open>Invariant verifier\<close>

definition FUTURE_FULL_SCHEMA :: "string list" where
  "FUTURE_FULL_SCHEMA =
     [''description'', ''category'', ''dk_pn'', ''mfr_pn'', ''mfr'', ''qty_shipped'',
      ''gbp_unit_price'', ''gbp_ext_price'', ''invoice_id'', ''date_shipped'', ''series'',
      ''product_status'', ''package_type'', ''core_processor'', ''core_type'', ''clock_speed'',
      ''program_memory_size'', ''other_parameters'']"

text \<open>
  The columns of a frame made from the rows: \<^verbatim>\<open>df[col]\<close> reads one field of each row.
\<close>

definition row_columns :: "(string \<times> (row \<Rightarrow> cell)) list" where
  "row_columns =
     [(''description'', \<lambda>r. Val (r_description r)),
      (''category'', \<lambda>r. Val (r_category r)),
      (''dk_pn'', \<lambda>r. Val (r_dk_pn r)),
      (''mfr_pn'', \<lambda>r. Val (r_mfr_pn r)),
      (''mfr'', \<lambda>r. Val (r_mfr r)),
      (''qty_shipped'', \<lambda>r. Val (r_qty_shipped r)),
      (''gbp_unit_price'', \<lambda>r. Val (r_gbp_unit_price r)),
      (''gbp_ext_price'', \<lambda>r. Val (r_gbp_ext_price r)),
      (''invoice_id'', \<lambda>r. Val (r_invoice_id r)),
      (''date_shipped'', \<lambda>r. Val (r_date_shipped r)),
      (''series'', \<lambda>r. Val (r_series r)),
      (''product_status'', \<lambda>r. Val (r_product_status r)),
      (''package_type'', \<lambda>r. Val (r_package_type r)),
      (''core_processor'', \<lambda>r. Val (r_core_processor r)),
      (''core_type'', \<lambda>r. Val (r_core_type r)),
      (''clock_speed'', \<lambda>r. Val (r_clock_speed r)),
      (''program_memory_size'', \<lambda>r. Val (r_program_memory_size r)),
      (''other_parameters'', r_other_parameters)]"

definition column :: "string \<Rightarrow> (row \<Rightarrow> cell) option" where
  "column col = map_of row_columns col"

text \<open>
  \<^verbatim>\<open>pd.DataFrame(rows)\<close> on the list of rows. A frame made from no rows has no column, and
  \<^verbatim>\<open>df[col]\<close> and \<^verbatim>\<open>df.set_index(col)\<close> raise KeyError on it, as they do for a name that
  is no column. A frame made from at least one row has the columns of the rows, and pandas
  (version 2) infers one dtype for each column from all the values the column holds:
  bool when all are Python booleans; int64 when all are integers; float64 when all are
  integers, floats or None, one at least is a number, and not all are integers; object
  otherwise. An integer that does not fit in 64 bits counts as no number here, so its
  column is of dtype object (pandas has a dtype uint64 as well, for larger non-negative integers).
\<close>

datatype dtype = Bool | Int64 | Float64 | Object

fun is_bool :: "cell \<Rightarrow> bool" where
  "is_bool (Val (JBool b)) = True"
| "is_bool _ = False"

fun is_integer :: "cell \<Rightarrow> bool" where
  "is_integer (Val (JInt n)) = (- (2 ^ 63) \<le> n \<and> n < 2 ^ 63)"
| "is_integer _ = False"

fun is_float :: "cell \<Rightarrow> bool" where
  "is_float (Val (JFloat q)) = True"
| "is_float _ = False"

fun is_none :: "cell \<Rightarrow> bool" where
  "is_none (Val JNull) = True"
| "is_none _ = False"

definition infer_dtype :: "cell list \<Rightarrow> dtype" where
  "infer_dtype values =
     (if list_all is_bool values then Bool
      else if list_all is_integer values then Int64
      else if list_all (\<lambda>c. is_integer c \<or> is_float c \<or> is_none c) values
              \<and> list_ex (\<lambda>c. is_integer c \<or> is_float c) values
      then Float64
      else Object)"

text \<open>
  What a column of a dtype stores for a value of a row: in a float64 column an integer is
  stored as the float of the same value, and None as the missing value NaN, which stays
  \<^term>\<open>Val JNull\<close> here. The other dtypes store the value as it is.
\<close>

fun stored :: "dtype \<Rightarrow> cell \<Rightarrow> cell" where
  "stored Float64 (Val (JInt n)) = Val (JFloat (of_int n))"
| "stored dt c = c"

text \<open>
  A series: its dtype, its index labels and its values. \<^verbatim>\<open>keyed[col]\<close>, for
  \<^verbatim>\<open>keyed = df[mask].set_index("_detail_key")\<close>, is the column of the rows that the mask
  keeps (\<open>keep\<close>), labelled by their identity keys; its dtype is the one inferred for the column of
  the whole frame \<open>df\<close>, which selecting rows does not change.
\<close>

record series =
  s_dtype :: dtype
  s_index :: "hkey list"
  s_values :: "cell list"

definition keyed_column :: "string \<Rightarrow> row list \<Rightarrow> (row \<Rightarrow> bool) \<Rightarrow> error + series" where
  "keyed_column col df keep =
     (if df = [] then Inl KeyError
      else case column col of
             None \<Rightarrow> Inl KeyError
           | Some f \<Rightarrow>
               let dt = infer_dtype (map f df);
                   kept = filter keep df
               in Inr \<lparr>s_dtype = dt, s_index = map r_detail_key kept,
                        s_values = map (\<lambda>r. stored dt (f r)) kept\<rparr>)"

text \<open>
  \<^verbatim>\<open>.fillna("")\<close>: a missing value (None, NaN) becomes the empty string. A series that
  holds no missing value is returned as it is; a float64 series that holds one becomes a
  series of dtype object.
\<close>

definition fillna :: "cell \<Rightarrow> cell" where
  "fillna c = (if c = Val JNull then Val (JStr []) else c)"

definition series_fillna :: "series \<Rightarrow> series" where
  "series_fillna s =
     (if list_ex is_none (s_values s)
      then \<lparr>s_dtype = Object, s_index = s_index s, s_values = map fillna (s_values s)\<rparr>
      else s)"

text \<open>
  Python's \<^verbatim>\<open>==\<close> on two values of a column: numbers and booleans by their numeric value,
  strings and None as they are. Two lists or two dicts are compared as they are written,
  which is finer than Python's \<^verbatim>\<open>==\<close>.
\<close>

definition py_eq :: "cell \<Rightarrow> cell \<Rightarrow> bool" where
  "py_eq x y =
     (case (x, y) of
        (Val u, Val v) \<Rightarrow>
          (case (hash_key u, hash_key v) of
             (Inr h, Inr k) \<Rightarrow> h = k
           | _ \<Rightarrow> u = v)
      | _ \<Rightarrow> x = y)"

text \<open>
  \<^verbatim>\<open>a.equals(b)\<close>: the same dtype, the same index labels in the same order, and equal
  values at each position.
\<close>

definition series_equals :: "series \<Rightarrow> series \<Rightarrow> bool" where
  "series_equals a b =
     (s_dtype a = s_dtype b \<and> s_index a = s_index b \<and> list_all2 py_eq (s_values a) (s_values b))"

text \<open>
  Check A. \<^verbatim>\<open>df_merged["_is_new"]\<close> raises KeyError on a frame made from no rows; then
  \<^verbatim>\<open>assert actual_new == expected_new\<close>, with \<^verbatim>\<open>expected_new\<close> the size of the set of
  delta-only keys and \<^verbatim>\<open>actual_new\<close> the number of rows marked new.
\<close>

definition check_A :: "hkey set \<Rightarrow> row list \<Rightarrow> error + unit" where
  "check_A delta_only_keys df_merged =
     (if df_merged = [] then Inl KeyError
      else let expected_new = card delta_only_keys;
               actual_new = length (filter r_is_new df_merged)
           in if actual_new = expected_new then Inr () else Inl AssertionError)"

text \<open>
  Check B. \<^verbatim>\<open>df_base.set_index("_detail_key")\<close> and \<^verbatim>\<open>df_merged["_is_new"]\<close> raise KeyError
  on a frame made from no rows. The key sets of the two frames are compared first; then,
  column by column of the stable schema, the series \<open>a\<close> of the base frame and the series
  \<open>b\<close> of the rows of the merged frame that are not marked new. When \<^verbatim>\<open>a.equals(b)\<close> is
  false the code evaluates \<^verbatim>\<open>diff = (a != b)\<close>, which raises ValueError for two series
  with different index labels, and \<^verbatim>\<open>diff[diff].index[0]\<close>, which raises IndexError when
  no value differs, that is when the two series differ in their dtype alone; otherwise it
  raises the AssertionError with the first differing key.
\<close>

fun check_columns :: "string list \<Rightarrow> row list \<Rightarrow> row list \<Rightarrow> error + unit" where
  "check_columns [] df_base df_merged = Inr ()"
| "check_columns (col # cols) df_base df_merged =
     bind_err (keyed_column col df_base (\<lambda>r. True)) (\<lambda>base_col.
     bind_err (keyed_column col df_merged (\<lambda>r. \<not> r_is_new r)) (\<lambda>merged_col.
     let a = series_fillna base_col;
         b = series_fillna merged_col
     in if series_equals a b then check_columns cols df_base df_merged
        else if s_index a \<noteq> s_index b then Inl ValueError
        else if list_ex (\<lambda>(x, y). \<not> py_eq x y) (zip (s_values a) (s_values b))
        then Inl AssertionError
        else Inl IndexError))"

definition check_B :: "row list \<Rightarrow> row list \<Rightarrow> error + unit" where
  "check_B df_base df_merged =
     (if df_base = [] \<or> df_merged = [] then Inl KeyError
      else let base_keyed = df_base;
               merged_old = filter (\<lambda>r. \<not> r_is_new r) df_merged
           in if set (map r_detail_key base_keyed) \<noteq> set (map r_detail_key merged_old)
              then Inl AssertionError
              else check_columns FUTURE_FULL_SCHEMA df_base df_merged)"

text \<open>
  Check C. \<^verbatim>\<open>df_merged["_is_new"]\<close> raises KeyError on a frame made from no rows. Among
  the new rows whose core processor is not empty, each must have one of the four MCU
  columns not empty after \<^verbatim>\<open>.fillna("").astype(str)\<close>; the text of a value is empty only
  for the empty string, whatever the dtype of its column.
\<close>

definition mcu_cols :: "(row \<Rightarrow> json) list" where
  "mcu_cols = [r_core_processor, r_core_type, r_clock_speed, r_program_memory_size]"

definition check_C :: "row list \<Rightarrow> error + unit" where
  "check_C df_merged =
     (if df_merged = [] then Inl KeyError
      else let new_mcu_rows =
                 filter (\<lambda>r. r_is_new r \<and> fillna (Val (r_core_processor r)) \<noteq> Val (JStr []))
                   df_merged
           in if length new_mcu_rows > 0
              then (let ok = list_all (\<lambda>r. list_ex (\<lambda>f. fillna (Val (f r)) \<noteq> Val (JStr [])) mcu_cols)
                               new_mcu_rows
                    in if ok then Inr () else Inl AssertionError)
              else Inr ())"

section \<open>Base and delta selector\<close>

text \<open>
  A JSON file of the input directory: its path, its size in bytes and the document
  \<^verbatim>\<open>json.load\<close> returns for it, if it returns one. Paths are ordered, as
  \<^verbatim>\<open>pathlib.Path\<close> objects are.
\<close>

record 'p json_file =
  f_path :: 'p
  f_size :: nat
  f_doc :: "json option"

definition load_json :: "'p json_file \<Rightarrow> error + json" where
  "load_json p = (case f_doc p of None \<Rightarrow> Inl ValueError | Some doc \<Rightarrow> Inr doc)"

text \<open>The group of a file: a file that cannot be loaded is unknown.\<close>

definition classify_file :: "'p json_file \<Rightarrow> string" where
  "classify_file p = (case f_doc p of None \<Rightarrow> ''unknown'' | Some doc \<Rightarrow> classify_json_doc doc)"

definition kind_keys :: "string \<Rightarrow> json \<Rightarrow> error + hkey list" where
  "kind_keys kind doc = (if kind = ''invoice'' then iter_detail_keys doc else iter_prod_dk_keys doc)"

definition overlap :: "string \<Rightarrow> hkey set \<Rightarrow> 'p json_file \<Rightarrow> error + nat" where
  "overlap kind delta_keys p =
     bind_err (load_json p) (\<lambda>base_doc.
     bind_err (kind_keys kind base_doc) (\<lambda>bks.
     let base_keys = set bks in Inr (card (base_keys \<inter> delta_keys))))"

text \<open>
  The body of the loop over the two kinds. \<^verbatim>\<open>scored.sort()\<close> orders the triples
  \<^verbatim>\<open>(overlap(p), -_file_size(p), p)\<close> lexicographically.
\<close>

definition select_base_delta ::
  "string \<Rightarrow> ('p::linorder) json_file list \<Rightarrow> error + ('p json_file \<times> 'p json_file)" where
  "select_base_delta kind paths =
     (if length paths < 2 then Inl RuntimeError
      else case sort_key f_size paths of
        [] \<Rightarrow> Inl IndexError
      | delta # candidates \<Rightarrow>
          bind_err (load_json delta) (\<lambda>delta_doc.
          bind_err (kind_keys kind delta_doc) (\<lambda>dks.
          let delta_keys = set dks in
          bind_err (map_err (\<lambda>p. bind_err (overlap kind delta_keys p)
                      (\<lambda>ov. Inr (ov, - int (f_size p), p))) candidates) (\<lambda>scored.
          case sort_key (\<lambda>(ov, neg_size, p). (ov, neg_size, f_path p)) scored of
            [] \<Rightarrow> Inl IndexError
          | (ov, neg_size, base) # rest \<Rightarrow> Inr (base, delta)))))"

definition discover_json_base_delta ::
  "('p::linorder) json_file list
     \<Rightarrow> error + (('p json_file \<times> 'p json_file) \<times> ('p json_file \<times> 'p json_file))" where
  "discover_json_base_delta json_paths =
     bind_err (select_base_delta ''invoice''
                (filter (\<lambda>p. classify_file p = ''invoice'') json_paths)) (\<lambda>inv_pair.
     bind_err (select_base_delta ''product''
                (filter (\<lambda>p. classify_file p = ''product'') json_paths)) (\<lambda>prod_pair.
     Inr (inv_pair, prod_pair)))"

section \<open>CSV pair selector\<close>

text \<open>
  A CSV file: its path, its size, the number of columns of its header when
  \<^verbatim>\<open>pd.read_csv(p, nrows=1)\<close> succeeds, and its number of lines. An entry of
  \<^verbatim>\<open>info\<close> is the tuple (path, size, columns, rows) of a readable file, with rows the
  number of lines less one.
\<close>

record 'p csv_file =
  c_path :: 'p
  c_size :: nat
  c_ncols :: "nat option"
  c_nlines :: nat

record 'p csv_entry =
  e_path :: 'p
  e_size :: nat
  e_ncols :: nat
  e_nrows :: int

fun csv_info :: "'p csv_file list \<Rightarrow> 'p csv_entry list" where
  "csv_info [] = []"
| "csv_info (p # ps) =
     (case c_ncols p of
        None \<Rightarrow> csv_info ps
      | Some ncols \<Rightarrow>
          \<lparr>e_path = c_path p, e_size = c_size p, e_ncols = ncols,
            e_nrows = int (c_nlines p) - 1\<rparr> # csv_info ps)"

definition discover_csv_pair :: "'p csv_file list \<Rightarrow> error + ('p \<times> 'p)" where
  "discover_csv_pair csv_paths =
     (if length csv_paths < 2 then Inl RuntimeError
      else let info = csv_info csv_paths in
      if info = [] then Inl RuntimeError
      else case sort_key (\<lambda>x. (e_ncols x, e_size x)) info of
        [] \<Rightarrow> Inl IndexError
      | mini # rest \<Rightarrow>
          let mini_rows = e_nrows mini;
              full_candidates =
                filter (\<lambda>x. e_nrows x = mini_rows \<and> e_ncols x > e_ncols mini) info
          in if full_candidates \<noteq> []
             then (case sort_key (\<lambda>x. (- int (e_size x), - int (e_ncols x))) full_candidates of
                     [] \<Rightarrow> Inl IndexError
                   | full # rest' \<Rightarrow> Inr (e_path full, e_path mini))
             else let sorted_by_size = sort_key e_size info
                  in Inr (e_path (last sorted_by_size), e_path (hd sorted_by_size)))"

section \<open>Pipeline runner\<close>

text \<open>
  \<^verbatim>\<open>run_pipeline\<close> with its default \<^verbatim>\<open>schema_mutations=None\<close>, for which
  \<^verbatim>\<open>apply_schema_mutations\<close> returns the frame and the schema as they are. The input
  directory is the list of its JSON files and the list of its CSV files; the output
  directory is the list of files written, in the order of writing. A frame is given by the list
  of rows it is made from.
\<close>

text \<open>\<^verbatim>\<open>a + b\<close> on two documents that are lists.\<close>

fun py_add :: "json \<Rightarrow> json \<Rightarrow> error + json" where
  "py_add (JArr xs) (JArr ys) = Inr (JArr (xs @ ys))"
| "py_add _ _ = Inl TypeError"

text \<open>
  What a written file holds. A JSON output is opened for writing before the document is
  built, so a failure in building it leaves the file empty.
\<close>

datatype content =
    JsonDoc json
  | CsvTable "string list" "cell list list"
  | EmptyFile

record run_result =
  written :: "(string \<times> content) list"
  raised :: "error option"

record 'p frames =
  fr_products_base :: json
  fr_products_delta :: json
  fr_invoices_base :: json
  fr_invoices_delta :: json
  fr_full_csv :: 'p
  fr_delta_only_keys :: "hkey set"
  fr_df_base :: "row list"
  fr_df_merged :: "row list"

text \<open>Steps 1 to 4: discover and load the inputs, build the lookup and the two projections.\<close>

definition steps_1_to_4 ::
  "('p::linorder) json_file list \<Rightarrow> 'p csv_file list \<Rightarrow> error + 'p frames" where
  "steps_1_to_4 json_paths csv_paths =
     bind_err (discover_json_base_delta json_paths)
       (\<lambda>((inv_base_p, inv_delta_p), (prod_base_p, prod_delta_p)).
     bind_err (discover_csv_pair csv_paths) (\<lambda>(full_csv_p, mini_csv_p).
     bind_err (load_json inv_base_p) (\<lambda>invoices_base.
     bind_err (load_json inv_delta_p) (\<lambda>invoices_delta.
     bind_err (load_json prod_base_p) (\<lambda>products_base.
     bind_err (load_json prod_delta_p) (\<lambda>products_delta.
     bind_err (iter_detail_keys invoices_base) (\<lambda>bks.
     bind_err (iter_detail_keys invoices_delta) (\<lambda>dks.
     let base_detail_keys = set bks;
         delta_detail_keys = set dks;
         delta_only_keys = delta_detail_keys - base_detail_keys
     in
     bind_err (build_prod_by_dk products_base products_delta) (\<lambda>prod_by_dk.
     bind_err (build_rows invoices_base prod_by_dk None) (\<lambda>base_rows.
     bind_err (py_add invoices_base invoices_delta) (\<lambda>invoices_all.
     bind_err (build_rows invoices_all prod_by_dk (Some delta_only_keys)) (\<lambda>merged_rows.
     Inr \<lparr> fr_products_base = products_base,
           fr_products_delta = products_delta,
           fr_invoices_base = invoices_base,
           fr_invoices_delta = invoices_delta,
           fr_full_csv = full_csv_p,
           fr_delta_only_keys = delta_only_keys,
           fr_df_base = base_rows,
           fr_df_merged = merged_rows \<rparr>))))))))))))"

text \<open>\<^verbatim>\<open>df[schema].to_csv(path, index=False)\<close>: the header and one line of cells for each row.\<close>

definition to_csv :: "string list \<Rightarrow> row list \<Rightarrow> error + content" where
  "to_csv schema df =
     bind_err (map_err (\<lambda>col. case column col of None \<Rightarrow> Inl KeyError | Some f \<Rightarrow> Inr f) schema)
       (\<lambda>fs. Inr (CsvTable schema (map (\<lambda>r. map (\<lambda>f. f r) fs) df)))"

definition MINI_SCHEMA :: "string list" where
  "MINI_SCHEMA = [''mfr_pn'', ''dk_pn'', ''description'', ''qty_bought'']"

definition mini_df :: "row list \<Rightarrow> content" where
  "mini_df df_out =
     CsvTable MINI_SCHEMA
       (map (\<lambda>r. [Val (r_mfr_pn r), Val (r_dk_pn r), Val (r_description r), Val (r_qty_bought r)])
          df_out)"

text \<open>
  Step 10: the five writes, in the order of the code. \<^verbatim>\<open>df_out[schema_out]\<close> raises
  KeyError on a frame made from no rows.
\<close>

definition write_outputs :: "'p frames \<Rightarrow> run_result" where
  "write_outputs fr =
     (let df_out = fr_df_merged fr;
          schema_out = FUTURE_FULL_SCHEMA
      in
      case py_add (fr_products_base fr) (fr_products_delta fr) of
        Inl e \<Rightarrow> \<lparr>written = [(''merged_products_out.json'', EmptyFile)], raised = Some e\<rparr>
      | Inr products \<Rightarrow>
      let w1 = [(''merged_products_out.json'', JsonDoc products)] in
      case py_add (fr_invoices_base fr) (fr_invoices_delta fr) of
        Inl e \<Rightarrow> \<lparr>written = w1 @ [(''merged_invoices_out.json'', EmptyFile)], raised = Some e\<rparr>
      | Inr invoices \<Rightarrow>
      let w2 = w1 @ [(''merged_invoices_out.json'', JsonDoc invoices)] in
      case (if df_out = [] then Inl KeyError else to_csv schema_out df_out) of
        Inl e \<Rightarrow> \<lparr>written = w2, raised = Some e\<rparr>
      | Inr out_full \<Rightarrow>
      let w3 = w2 @ [(''updated_full_future_schema.csv'', out_full),
                     (''updated_mini.csv'', mini_df df_out)] in
      case to_csv schema_out (filter r_is_new df_out) of
        Inl e \<Rightarrow> \<lparr>written = w3, raised = Some e\<rparr>
      | Inr out_new \<Rightarrow>
          \<lparr>written = w3 @ [(''new_purchases_enriched.csv'', out_new)], raised = None\<rparr>)"

text \<open>
  Steps 5 to 10: the three checks, the read of the input full CSV for the row difference
  that is reported (\<open>orig_full\<close> is what \<^verbatim>\<open>len(pd.read_csv(full_csv_p))\<close> gives), and the
  writes. A check that fails raises, and so does a failed read; nothing has been written
  then.
\<close>

definition steps_5_to_10 :: "'p frames \<Rightarrow> error + nat \<Rightarrow> run_result" where
  "steps_5_to_10 fr orig_full =
     (case bind_err (check_A (fr_delta_only_keys fr) (fr_df_merged fr)) (\<lambda>_.
           bind_err (check_B (fr_df_base fr) (fr_df_merged fr)) (\<lambda>_.
           bind_err (check_C (fr_df_merged fr)) (\<lambda>_.
           bind_err orig_full (\<lambda>n.
           Inr (int (length (fr_df_merged fr)) - int n))))) of
        Inl e \<Rightarrow> \<lparr>written = [], raised = Some e\<rparr>
      | Inr row_diff_vs_input_full \<Rightarrow> write_outputs fr)"

definition run_pipeline ::
  "('p::linorder) json_file list \<Rightarrow> 'p csv_file list \<Rightarrow> ('p \<Rightarrow> error + nat) \<Rightarrow> run_result" where
  "run_pipeline json_paths csv_paths read_csv =
     (case steps_1_to_4 json_paths csv_paths of
        Inl e \<Rightarrow> \<lparr>written = [], raised = Some e\<rparr>
      | Inr fr \<Rightarrow> steps_5_to_10 fr (read_csv (fr_full_csv fr)))"

section \<open>A small data set\<close>

text \<open>
  Two base line items and three delta line items, one of which repeats a base key; a
  passive part with a Core Processor parameter and a microcontroller.
\<close>

definition ex_base :: "json list" where
  "ex_base =
     [JObj [(''invoices'', JArr [JObj [(''invoiceId'', JInt 7), (''dateShipped'', JStr ''2024-01-02'')]]),
            (''invoiceDetails'', JArr [
               JObj [(''invoiceId'', JInt 7), (''detailId'', JInt 1),
                     (''digiKeyProductNumber'', JStr ''A-1''), (''description'', JStr ''module'')],
               JObj [(''invoiceId'', JInt 7), (''detailId'', JInt 2),
                     (''digiKeyProductNumber'', JStr ''Z-9''), (''description'', JNull)]])]]"

definition ex_delta :: "json list" where
  "ex_delta =
     [JObj [(''invoices'', JArr [JObj [(''invoiceId'', JInt 8), (''dateShipped'', JStr ''2024-03-04'')]]),
            (''invoiceDetails'', JArr [
               JObj [(''invoiceId'', JInt 7), (''detailId'', JInt 2),
                     (''digiKeyProductNumber'', JStr ''Z-9''), (''description'', JStr ''again'')],
               JObj [(''invoiceId'', JInt 8), (''detailId'', JInt 1),
                     (''digiKeyProductNumber'', JStr ''M-3''), (''description'', JStr ''mcu'')],
               JObj [(''invoiceId'', JInt 8),
                     (''digiKeyProductNumber'', JStr ''Q-5''), (''quantityShipped'', JInt 4)]])]]"

definition ex_module :: json where
  "ex_module =
     JObj [(''category'', JObj [(''name'', JStr ''RF Modules''), (''childCategories'', JArr [])]),
           (''productVariations'', JArr [JObj [(''digiKeyProductNumber'', JStr ''A-1'')]]),
           (''parameters'', JArr [
              JObj [(''parameterText'', JStr ''Core Processor''), (''valueText'', JStr ''ESP32'')],
              JObj [(''parameterText'', JStr ''Mounting Type''), (''valueText'', JStr ''SMD'')]])]"

definition ex_mcu :: json where
  "ex_mcu =
     JObj [(''category'', JObj [(''name'', JStr ''Integrated Circuits''),
              (''childCategories'', JArr [JObj [(''name'', JStr ''Microcontrollers'')]])]),
           (''productVariations'', JArr [JObj [(''digiKeyProductNumber'', JStr ''M-3'')]]),
           (''parameters'', JArr [
              JObj [(''parameterText'', JStr ''Core Processor''), (''valueText'', JStr ''AVR'')],
              JObj [(''parameterText'', JStr ''Voltage''), (''valueText'', JStr ''5V'')]])]"

definition ex_lut :: "hkey \<rightharpoonup> json" where
  "ex_lut = [HStr ''A-1'' \<mapsto> ex_module, HStr ''M-3'' \<mapsto> ex_mcu]"

text \<open>
  Three product files: a pre-merge base, a small delta, and a file that already holds both;
  and four CSV files, one of which cannot be read.
\<close>

definition ex_products_a :: json where
  "ex_products_a =
     JArr [JObj [(''productVariations'', JArr [JObj [(''digiKeyProductNumber'', JStr ''A-1'')]])]]"

definition ex_products_b :: json where
  "ex_products_b =
     JArr [JObj [(''productVariations'', JArr [JObj [(''digiKeyProductNumber'', JStr ''M-3'')]])]]"

definition ex_products_ab :: json where
  "ex_products_ab =
     JArr [JObj [(''productVariations'', JArr [JObj [(''digiKeyProductNumber'', JStr ''A-1'')]])],
           JObj [(''productVariations'', JArr [JObj [(''digiKeyProductNumber'', JStr ''M-3'')]])]]"

definition ex_product_files :: "nat json_file list" where
  "ex_product_files =
     [\<lparr>f_path = 1, f_size = 900, f_doc = Some ex_products_a\<rparr>,
      \<lparr>f_path = 2, f_size = 100, f_doc = Some ex_products_b\<rparr>,
      \<lparr>f_path = 3, f_size = 990, f_doc = Some ex_products_ab\<rparr>]"

definition ex_csv_files :: "nat csv_file list" where
  "ex_csv_files =
     [\<lparr>c_path = 1, c_size = 100, c_ncols = Some 4, c_nlines = 11\<rparr>,
      \<lparr>c_path = 2, c_size = 900, c_ncols = Some 18, c_nlines = 11\<rparr>,
      \<lparr>c_path = 3, c_size = 950, c_ncols = Some 18, c_nlines = 14\<rparr>,
      \<lparr>c_path = 4, c_size = 5, c_ncols = None, c_nlines = 0\<rparr>]"

definition ex_json_files :: "nat json_file list" where
  "ex_json_files =
     [\<lparr>f_path = 10, f_size = 800, f_doc = Some (JArr ex_base)\<rparr>,
      \<lparr>f_path = 11, f_size = 200, f_doc = Some (JArr ex_delta)\<rparr>,
      \<lparr>f_path = 12, f_size = 3, f_doc = None\<rparr>] @ ex_product_files"

text \<open>
  Frames on which check A fails its assertion: the two base rows, none of them marked new,
  with one key expected to be new.
\<close>

definition ex_rows :: "row list" where
  "ex_rows = (case build_rows (JArr ex_base) ex_lut None of Inl e \<Rightarrow> [] | Inr rows \<Rightarrow> rows)"

definition ex_bad_frames :: "nat frames" where
  "ex_bad_frames =
     \<lparr>fr_products_base = JArr [], fr_products_delta = JArr [],
      fr_invoices_base = JArr ex_base, fr_invoices_delta = JArr [],
      fr_full_csv = 2, fr_delta_only_keys = {HNone},
      fr_df_base = ex_rows, fr_df_merged = ex_rows\<rparr>"

text \<open>
  Two invoice files that hold no line item, \<^verbatim>\<open>[{"invoiceDetails": []}]\<close> each, with the
  product files and the CSV files above.
\<close>

definition ex_no_items :: "json list" where
  "ex_no_items = [JObj [(''invoiceDetails'', JArr [])]]"

definition ex_no_items_files :: "nat json_file list" where
  "ex_no_items_files =
     [\<lparr>f_path = 20, f_size = 24, f_doc = Some (JArr ex_no_items)\<rparr>,
      \<lparr>f_path = 21, f_size = 24, f_doc = Some (JArr ex_no_items)\<rparr>] @ ex_product_files"

text \<open>
  A base invoice file of two line items with integer quantities and a delta invoice file
  of one other line item whose quantity is null, with the product files and the CSV files
  above.
\<close>

definition ex_int_base :: "json list" where
  "ex_int_base =
     [JObj [(''invoiceDetails'', JArr [
        JObj [(''invoiceId'', JInt 1), (''detailId'', JInt 1), (''quantityShipped'', JInt 5)],
        JObj [(''invoiceId'', JInt 1), (''detailId'', JInt 2), (''quantityShipped'', JInt 3)]])]]"

definition ex_none_delta :: "json list" where
  "ex_none_delta =
     [JObj [(''invoiceDetails'', JArr [
        JObj [(''invoiceId'', JInt 2), (''detailId'', JInt 1), (''quantityShipped'', JNull)]])]]"

definition ex_int_files :: "nat json_file list" where
  "ex_int_files =
     [\<lparr>f_path = 30, f_size = 132, f_doc = Some (JArr ex_int_base)\<rparr>,
      \<lparr>f_path = 31, f_size = 80, f_doc = Some (JArr ex_none_delta)\<rparr>] @ ex_product_files"

section \<open>Theorems\<close>

lemma bind_err_simps [simp]:
  "bind_err (Inl e) f = Inl e"
  "bind_err (Inr x) f = f x"
  by (simp_all add: bind_err_def)

lemma bind_err_eq_Inr:
  "bind_err m f = Inr y \<longleftrightarrow> (\<exists>x. m = Inr x \<and> f x = Inr y)"
  by (cases m) simp_all

text \<open>
  C10. A document that is a non-empty list whose first element is a mapping holding an
  invoice marker key (invoiceDetails, invoices or boxes) together with a product marker key
  (productVariations or parameters) is labelled invoice: the invoice test comes first.
\<close>

theorem classify_invoice_precedence:
  assumes "has_key e0 ''invoiceDetails'' \<or> has_key e0 ''invoices'' \<or> has_key e0 ''boxes''"
    and "has_key e0 ''productVariations'' \<or> has_key e0 ''parameters''"
  shows "classify_json_doc (JArr (JObj e0 # rest)) = ''invoice''
    \<and> classify_json_doc (JArr (JObj e0 # rest)) \<noteq> ''product''"
  using assms(1) by simp

theorem classify_invoice_precedence_witness:
  "classify_json_doc (JArr [JObj [(''parameters'', JArr []), (''boxes'', JArr [])], JNull])
     = ''invoice''"
  using classify_invoice_precedence
    [of "[(''parameters'', JArr []), (''boxes'', JArr [])]" "[JNull]"]
  by (simp add: has_key_def)

text \<open>
  C7 as stated fails: the category is not always the first child's name when the child list
  is non-empty. A first child whose name is empty (or missing) makes
  \<^verbatim>\<open>children[0].get("name", "") or cat.get("name", "")\<close> fall back to the top-level
  name.
\<close>

theorem category_t2_first_child_counterexample:
  "\<not> (\<forall>prd c ch c0 cs n.
        py_get prd ''category'' JNull = Inr c \<and> py_get c ''childCategories'' JNull = Inr ch
        \<and> ch = JArr (c0 # cs) \<and> py_get c0 ''name'' (JStr []) = Inr n
        \<longrightarrow> category_t2 prd = Inr n)"
proof
  let ?child = "JObj [(''name'', JStr [])]"
  let ?ch = "JArr [?child, JObj [(''name'', JStr ''Second'')]]"
  let ?c = "JObj [(''name'', JStr ''Top''), (''childCategories'', ?ch)]"
  let ?prd = "JObj [(''category'', ?c)]"
  assume a: "\<forall>prd c ch c0 cs n.
        py_get prd ''category'' JNull = Inr c \<and> py_get c ''childCategories'' JNull = Inr ch
        \<and> ch = JArr (c0 # cs) \<and> py_get c0 ''name'' (JStr []) = Inr n
        \<longrightarrow> category_t2 prd = Inr n"
  from a have "py_get ?prd ''category'' JNull = Inr ?c \<and> py_get ?c ''childCategories'' JNull = Inr ?ch
        \<and> ?ch = JArr (?child # [JObj [(''name'', JStr ''Second'')]])
        \<and> py_get ?child ''name'' (JStr []) = Inr (JStr [])
        \<longrightarrow> category_t2 ?prd = Inr (JStr [])"
    by blast
  moreover have "py_get ?prd ''category'' JNull = Inr ?c" by simp
  moreover have "py_get ?c ''childCategories'' JNull = Inr ?ch" by simp
  moreover have "py_get ?child ''name'' (JStr []) = Inr (JStr [])" by simp
  ultimately have "category_t2 ?prd = Inr (JStr [])"
    by blast
  moreover have "category_t2 ?prd = Inr (JStr ''Top'')"
    by (simp add: category_t2_def py_or_def)
  ultimately show False by simp
qed

text \<open>
  C7, amended. Without a product, or without a category, the category field is the empty
  string. With a category whose child list is empty or absent it is the top-level name.
  With a non-empty child list it is the first child's name when that name is non-empty, and
  the top-level name otherwise.
\<close>

theorem category_t2_value:
  "(\<not> truthy prd \<longrightarrow> category_t2 prd = Inr (JStr [])) \<and>
   (truthy prd \<longrightarrow> (\<forall>c. py_get prd ''category'' JNull = Inr c \<longrightarrow>
      (\<not> truthy c \<longrightarrow> category_t2 prd = Inr (JStr [])) \<and>
      (truthy c \<longrightarrow> (\<forall>ch. py_get c ''childCategories'' JNull = Inr ch \<longrightarrow>
         (\<not> truthy ch \<longrightarrow> category_t2 prd = py_get c ''name'' (JStr [])) \<and>
         (\<forall>c0 cs n. ch = JArr (c0 # cs) \<longrightarrow> py_get c0 ''name'' (JStr []) = Inr n \<longrightarrow>
            category_t2 prd = (if truthy n then Inr n else py_get c ''name'' (JStr [])))))))"
  by (auto simp: category_t2_def py_or_def)


theorem category_t2_value_witness:
  "truthy (JObj [(''category'', JObj [(''name'', JStr ''Integrated Circuits''),
       (''childCategories'', JArr [JObj [(''name'', JStr ''Embedded'')]])])])
   \<and> category_t2 (JObj [(''category'', JObj [(''name'', JStr ''Integrated Circuits''),
       (''childCategories'', JArr [JObj [(''name'', JStr ''Embedded'')]])])])
     = Inr (JStr ''Embedded'')"
  using category_t2_value [of "JObj [(''category'', JObj [(''name'', JStr ''Integrated Circuits''),
       (''childCategories'', JArr [JObj [(''name'', JStr ''Embedded'')]])])]"]
  by simp

lemma str_replace_single:
  "str_replace [r] [] s = filter (\<lambda>c. c \<noteq> r) s"
  by (induction s) (auto simp: starts_with_def)

lemma filter_str_replace:
  "filter p old = filter p new \<Longrightarrow> old \<noteq> [] \<Longrightarrow> filter p (str_replace old new s) = filter p s"
proof (induction old new s rule: str_replace.induct)
  case (1 old new)
  then show ?case by simp
next
  case (2 old new c cs)
  show ?case
  proof (cases "starts_with (c # cs) old")
    case True
    then have split: "c # cs = old @ drop (length old) (c # cs)"
      unfolding starts_with_def by (metis append_take_drop_id)
    have "filter p (str_replace old new (c # cs))
        = filter p new @ filter p (str_replace old new (drop (length old) (c # cs)))"
      using True "2.prems" by simp
    also have "\<dots> = filter p old @ filter p (drop (length old) (c # cs))"
      using "2.IH"(2) "2.prems" True by simp
    also have "\<dots> = filter p (c # cs)"
      using split by (metis filter_append)
    finally show ?thesis .
  next
    case False
    then show ?thesis using "2.IH"(3) "2.prems" by simp
  qed
qed

lemma strip_glyphs:
  "str_replace reg_glyph [] (str_replace (''Cortex'' @ reg_glyph) ''Cortex'' s)
     = filter (\<lambda>c. c \<noteq> CHR 0xAE) s"
proof -
  have "str_replace [CHR 0xAE] [] (str_replace (''Cortex'' @ [CHR 0xAE]) ''Cortex'' s)
      = filter (\<lambda>c. c \<noteq> CHR 0xAE) (str_replace (''Cortex'' @ [CHR 0xAE]) ''Cortex'' s)"
    by (rule str_replace_single)
  also have "\<dots> = filter (\<lambda>c. c \<noteq> CHR 0xAE) s"
    by (rule filter_str_replace) simp_all
  finally show ?thesis by (simp add: reg_glyph_def)
qed

text \<open>
  C8. With the parameter dict of the product and \<open>s\<close> the Core Processor value (the empty
  string when it is absent or empty): if \<open>s\<close> contains Cortex, core type is the text from
  the first Cortex on, without registered-trademark glyphs and stripped of surrounding
  whitespace; else if \<open>s\<close> contains AVR it is AVR; else it is the Core Size value when that
  is non-empty, else \<open>s\<close>. The other three fields are the parameter values as they are.
\<close>

theorem core_type_rule:
  assumes "mcu_params prd = Inr params"
    and "py_or (dict_get_default params (HStr ''Core Processor'') (JStr [])) (JStr []) = JStr s"
  shows "extract_mcu_fields prd =
      Inr (dict_get_default params (HStr ''Core Processor'') (JStr []),
           (if str_contains ''Cortex'' s
            then JStr (str_strip (filter (\<lambda>c. c \<noteq> CHR 0xAE) (str_from ''Cortex'' s)))
            else if str_contains ''AVR'' s then JStr ''AVR''
            else if truthy (dict_get_default params (HStr ''Core Size'') (JStr []))
            then dict_get_default params (HStr ''Core Size'') (JStr [])
            else JStr s),
           dict_get_default params (HStr ''Speed'') (JStr []),
           dict_get_default params (HStr ''Program Memory Size'') (JStr []))"
  using assms by (simp add: extract_mcu_fields_def Let_def strip_glyphs [simplified] py_or_def)


theorem core_type_rule_witness:
  "extract_mcu_fields (JObj [(''parameters'', JArr [
       JObj [(''parameterText'', JStr ''Core Processor''),
             (''valueText'', JStr (''ARM'' @ reg_glyph @ '' Cortex'' @ reg_glyph @ ''-M4 ''))],
       JObj [(''parameterText'', JStr ''Speed''), (''valueText'', JStr ''80MHz'')]])])
     = Inr (JStr (''ARM'' @ reg_glyph @ '' Cortex'' @ reg_glyph @ ''-M4 ''),
            JStr ''Cortex-M4'', JStr ''80MHz'', JStr [])"
proof -
  let ?cp = "JStr (''ARM'' @ reg_glyph @ '' Cortex'' @ reg_glyph @ ''-M4 '')"
  let ?prd = "JObj [(''parameters'', JArr [
       JObj [(''parameterText'', JStr ''Core Processor''), (''valueText'', ?cp)],
       JObj [(''parameterText'', JStr ''Speed''), (''valueText'', JStr ''80MHz'')]])]"
  let ?params = "[HStr ''Core Processor'' \<mapsto> ?cp, HStr ''Speed'' \<mapsto> JStr ''80MHz'']"
  have p: "mcu_params ?prd = Inr ?params"
    by (simp add: mcu_params_def py_or_def)
  have s: "py_or (dict_get_default ?params (HStr ''Core Processor'') (JStr [])) (JStr []) = ?cp"
    by (simp add: dict_get_default_def py_or_def reg_glyph_def)
  show ?thesis
    using core_type_rule [OF p s]
    by (simp add: dict_get_default_def reg_glyph_def starts_with_def str_strip_def py_isspace_def)
qed

lemma dict_lookup_store:
  "hash_key k = Inr h \<Longrightarrow>
     dict_lookup (dict_store h k v d) h' = (if h' = h then Some v else dict_lookup d h')"
  by (induction d) (auto simp: dict_lookup_def)

lemma hash_key_HStr: "hash_key k = Inr (HStr s) \<longleftrightarrow> k = JStr s"
  by (cases k) auto

lemma py_get_twice: "py_get x k d = Inr v \<Longrightarrow> \<exists>w. py_get x k' d' = Inr w"
  by (cases x) auto

lemma other_params_loop_lookup:
  assumes "other_params_loop prms out = Inr out'"
    and "\<forall>h. dict_lookup out h = (if h \<in> HStr ` set MCU_PROMOTED_PARAM_TEXTS then None else m h)"
  shows "\<exists>m'. params_dict prms m = Inr m' \<and>
    (\<forall>h. dict_lookup out' h = (if h \<in> HStr ` set MCU_PROMOTED_PARAM_TEXTS then None else m' h))"
  using assms
proof (induction prms arbitrary: out m)
  case Nil
  then show ?case by simp
next
  case (Cons prm rest)
  from Cons.prems(1) obtain k where k: "py_get prm ''parameterText'' (JStr []) = Inr k"
    by (auto simp: bind_err_eq_Inr)
  then obtain v where v: "py_get prm ''valueText'' (JStr []) = Inr v"
    using py_get_twice by blast
  show ?case
  proof (cases "k \<in> set (map JStr MCU_PROMOTED_PARAM_TEXTS)")
    case True
    then obtain name where name: "k = JStr name" "name \<in> set MCU_PROMOTED_PARAM_TEXTS"
      by auto
    from Cons.prems(1) k True have loop: "other_params_loop rest out = Inr out'"
      by simp
    have inv: "\<forall>h. dict_lookup out h =
        (if h \<in> HStr ` set MCU_PROMOTED_PARAM_TEXTS then None else (m(HStr name \<mapsto> v)) h)"
      using Cons.prems(2) name(2) by auto
    from Cons.IH [OF loop inv] obtain m' where
      m': "params_dict rest (m(HStr name \<mapsto> v)) = Inr m'"
        "\<forall>h. dict_lookup out' h =
           (if h \<in> HStr ` set MCU_PROMOTED_PARAM_TEXTS then None else m' h)"
      by blast
    have "params_dict (prm # rest) m = Inr m'"
      using k v name(1) m'(1) by simp
    with m'(2) show ?thesis by blast
  next
    case False
    from Cons.prems(1) k v False obtain h where h: "hash_key k = Inr h"
      and loop: "other_params_loop rest (dict_store h k v out) = Inr out'"
      by (auto simp: bind_err_eq_Inr dict_setitem_def)
    have notprom: "h \<notin> HStr ` set MCU_PROMOTED_PARAM_TEXTS"
      using False h by (auto simp: hash_key_HStr)
    have inv: "\<forall>h'. dict_lookup (dict_store h k v out) h' =
        (if h' \<in> HStr ` set MCU_PROMOTED_PARAM_TEXTS then None else (m(h \<mapsto> v)) h')"
      using Cons.prems(2) notprom by (auto simp: dict_lookup_store [OF h])
    from Cons.IH [OF loop inv] obtain m' where
      m': "params_dict rest (m(h \<mapsto> v)) = Inr m'"
        "\<forall>h. dict_lookup out' h =
           (if h \<in> HStr ` set MCU_PROMOTED_PARAM_TEXTS then None else m' h)"
      by blast
    have "params_dict (prm # rest) m = Inr m'"
      using k v h m'(1) by simp
    with m'(2) show ?thesis by blast
  qed
qed

lemma same_parameter_list:
  assumes "py_get prd ''parameters'' (JArr []) = Inr ps" and "py_iter ps = Inr prms"
  shows "\<exists>ps'. py_get prd ''parameters'' JNull = Inr ps' \<and> py_iter (py_or ps' (JArr [])) = Inr prms"
proof (cases prd)
  case (JObj kvs)
  show ?thesis
  proof (cases "map_of kvs ''parameters''")
    case None
    with assms JObj show ?thesis by (auto simp: py_or_def)
  next
    case (Some w)
    with assms JObj have "ps = w" by simp
    with assms(2) have "py_iter (py_or w (JArr [])) = Inr prms"
      by (cases w) (auto simp: py_or_def)
    with Some JObj show ?thesis by simp
  qed
qed (use assms in simp_all)

lemma build_other_params_dict_lookup:
  assumes "truthy prd" and "build_other_params_dict prd = Inr out"
  shows "\<exists>params. mcu_params prd = Inr params \<and>
    (\<forall>h. dict_lookup out h =
       (if h \<in> HStr ` set MCU_PROMOTED_PARAM_TEXTS then None else params h))"
proof -
  from assms obtain ps prms where ps: "py_get prd ''parameters'' (JArr []) = Inr ps"
    and prms: "py_iter ps = Inr prms" and loop: "other_params_loop prms [] = Inr out"
    by (auto simp: build_other_params_dict_def bind_err_eq_Inr)
  from same_parameter_list [OF ps prms] obtain ps' where
    ps': "py_get prd ''parameters'' JNull = Inr ps'" "py_iter (py_or ps' (JArr [])) = Inr prms"
    by blast
  have "\<forall>h. dict_lookup [] h = (if h \<in> HStr ` set MCU_PROMOTED_PARAM_TEXTS then None else Map.empty h)"
    by (simp add: dict_lookup_def)
  from other_params_loop_lookup [OF loop this] ps' show ?thesis
    by (simp add: mcu_params_def)
qed

lemma variations_loop_keeps:
  "variations_loop p vl lut = Inr lut' \<Longrightarrow> lut h = Some q \<Longrightarrow> lut' h = Some q"
proof (induction vl arbitrary: lut)
  case Nil
  then show ?case by simp
next
  case (Cons v vs)
  from Cons.prems(1) obtain dk where dk: "py_get v ''digiKeyProductNumber'' JNull = Inr dk"
    by (auto simp: bind_err_eq_Inr)
  show ?case
  proof (cases "truthy dk")
    case True
    with Cons.prems(1) dk obtain h' where h': "hash_key dk = Inr h'"
      and loop: "variations_loop p vs (if lut h' = None then lut(h' \<mapsto> p) else lut) = Inr lut'"
      by (auto simp: bind_err_eq_Inr)
    have "(if lut h' = None then lut(h' \<mapsto> p) else lut) h = Some q"
      using Cons.prems(2) by auto
    from Cons.IH [OF loop this] show ?thesis .
  next
    case False
    with Cons.prems dk Cons.IH show ?thesis by simp
  qed
qed

lemma variations_loop_source:
  "variations_loop p vl lut = Inr lut' \<Longrightarrow> lut' h = lut h \<or> lut' h = Some p"
proof (induction vl arbitrary: lut)
  case Nil
  then show ?case by simp
next
  case (Cons v vs)
  from Cons.prems(1) obtain dk where dk: "py_get v ''digiKeyProductNumber'' JNull = Inr dk"
    by (auto simp: bind_err_eq_Inr)
  show ?case
  proof (cases "truthy dk")
    case True
    with Cons.prems(1) dk obtain h' where h': "hash_key dk = Inr h'"
      and loop: "variations_loop p vs (if lut h' = None then lut(h' \<mapsto> p) else lut) = Inr lut'"
      by (auto simp: bind_err_eq_Inr)
    from Cons.IH [OF loop] show ?thesis by (auto split: if_splits)
  next
    case False
    with Cons.prems dk Cons.IH show ?thesis by simp
  qed
qed

lemma variations_loop_defined:
  assumes "variations_loop p vl lut = Inr lut'" and "v \<in> set vl"
    and "py_get v ''digiKeyProductNumber'' JNull = Inr dk" and "truthy dk" and "hash_key dk = Inr h"
  shows "lut' h \<noteq> None"
  using assms(1,2)
proof (induction vl arbitrary: lut)
  case Nil
  then show ?case by simp
next
  case (Cons w ws)
  from Cons.prems(1) obtain dk' where dk': "py_get w ''digiKeyProductNumber'' JNull = Inr dk'"
    by (auto simp: bind_err_eq_Inr)
  define lut1 where "lut1 =
    (if truthy dk' then (case hash_key dk' of Inr h' \<Rightarrow> (if lut h' = None then lut(h' \<mapsto> p) else lut)
       | Inl e \<Rightarrow> lut) else lut)"
  have loop: "variations_loop p ws lut1 = Inr lut'"
    using Cons.prems(1) dk' by (auto simp: lut1_def bind_err_eq_Inr)
  show ?case
  proof (cases "v = w")
    case True
    with dk' assms(3,4,5) have "lut1 h \<noteq> None" by (auto simp: lut1_def)
    then obtain q where "lut1 h = Some q" by auto
    from variations_loop_keeps [OF loop this] show ?thesis by simp
  next
    case False
    with Cons.prems(2) have "v \<in> set ws" by simp
    from Cons.IH [OF loop this] show ?thesis .
  qed
qed

lemma products_loop_keeps:
  "products_loop ps lut = Inr lut' \<Longrightarrow> lut h = Some q \<Longrightarrow> lut' h = Some q"
proof (induction ps arbitrary: lut)
  case Nil
  then show ?case by simp
next
  case (Cons p ps)
  from Cons.prems(1) obtain vs vl lut1 where
    "variations_loop p vl lut = Inr lut1" and loop: "products_loop ps lut1 = Inr lut'"
    by (auto simp: bind_err_eq_Inr)
  from variations_loop_keeps [OF this(1) Cons.prems(2)] have "lut1 h = Some q" .
  from Cons.IH [OF loop this] show ?case .
qed

lemma products_loop_source:
  "products_loop ps lut = Inr lut' \<Longrightarrow> lut' h = lut h \<or> (\<exists>p \<in> set ps. lut' h = Some p)"
proof (induction ps arbitrary: lut)
  case Nil
  then show ?case by simp
next
  case (Cons p ps)
  from Cons.prems(1) obtain vs vl lut1 where
    v: "variations_loop p vl lut = Inr lut1" and loop: "products_loop ps lut1 = Inr lut'"
    by (auto simp: bind_err_eq_Inr)
  from Cons.IH [OF loop] have "lut' h = lut1 h \<or> (\<exists>p \<in> set ps. lut' h = Some p)" .
  moreover from variations_loop_source [OF v] have "lut1 h = lut h \<or> lut1 h = Some p" .
  ultimately show ?case by auto
qed

lemma products_loop_defined:
  assumes "products_loop ps lut = Inr lut'" and "p \<in> set ps"
    and "py_get p ''productVariations'' (JArr []) = Inr vs" and "py_iter vs = Inr vl"
    and "v \<in> set vl" and "py_get v ''digiKeyProductNumber'' JNull = Inr dk"
    and "truthy dk" and "hash_key dk = Inr h"
  shows "lut' h \<noteq> None"
  using assms(1,2)
proof (induction ps arbitrary: lut)
  case Nil
  then show ?case by simp
next
  case (Cons q qs)
  from Cons.prems(1) obtain ws wl lut1 where
    ws: "py_get q ''productVariations'' (JArr []) = Inr ws" "py_iter ws = Inr wl"
    and v: "variations_loop q wl lut = Inr lut1" and loop: "products_loop qs lut1 = Inr lut'"
    by (auto simp: bind_err_eq_Inr)
  show ?case
  proof (cases "p = q")
    case True
    with ws assms(3,4) have "wl = vl" by simp
    with v assms(5-8) have "lut1 h \<noteq> None"
      using variations_loop_defined by blast
    then obtain r where "lut1 h = Some r" by auto
    from products_loop_keeps [OF loop this] show ?thesis by simp
  next
    case False
    with Cons.prems(2) have "p \<in> set qs" by simp
    from Cons.IH [OF loop this] show ?thesis .
  qed
qed

text \<open>
  C4. In the lookup built from a base and a delta product set, every non-empty vendor part
  number of a variation of a base product is mapped to a record of the base set: the record
  that the lookup built from the base set alone gives it. The delta set never changes the
  entry of such a key.
\<close>

theorem base_precedence:
  assumes "build_prod_by_dk (JArr base) (JArr delta) = Inr lut"
    and "p \<in> set base"
    and "py_get p ''productVariations'' (JArr []) = Inr vs" and "py_iter vs = Inr vl"
    and "v \<in> set vl" and "py_get v ''digiKeyProductNumber'' JNull = Inr dk"
    and "truthy dk" and "hash_key dk = Inr h"
  shows "\<exists>lut_base p'. build_prod_by_dk (JArr base) (JArr []) = Inr lut_base
    \<and> lut_base h = Some p' \<and> p' \<in> set base \<and> lut h = Some p'"
proof -
  from assms(1) obtain lb where lb: "products_loop base Map.empty = Inr lb"
    and ld: "products_loop delta lb = Inr lut"
    by (auto simp: build_prod_by_dk_def bind_err_eq_Inr)
  from products_loop_defined [OF lb assms(2-8)] obtain p' where p': "lb h = Some p'"
    by auto
  from products_loop_source [OF lb, of h] p' have "p' \<in> set base" by auto
  moreover from products_loop_keeps [OF ld p'] have "lut h = Some p'" .
  moreover have "build_prod_by_dk (JArr base) (JArr []) = Inr lb"
    using lb by (simp add: build_prod_by_dk_def)
  ultimately show ?thesis using p' by blast
qed

theorem base_precedence_witness:
  "\<exists>lut. build_prod_by_dk
       (JArr [JObj [(''name'', JStr ''old''), (''productVariations'',
          JArr [JObj [(''digiKeyProductNumber'', JStr ''A-1'')],
                JObj [(''digiKeyProductNumber'', JStr [])]])]])
       (JArr [JObj [(''name'', JStr ''new''), (''productVariations'',
          JArr [JObj [(''digiKeyProductNumber'', JStr ''A-1'')],
                JObj [(''digiKeyProductNumber'', JStr ''B-2'')]])]]) = Inr lut
     \<and> lut (HStr ''A-1'') = Some (JObj [(''name'', JStr ''old''), (''productVariations'',
          JArr [JObj [(''digiKeyProductNumber'', JStr ''A-1'')],
                JObj [(''digiKeyProductNumber'', JStr [])]])])"
proof -
  let ?v = "JObj [(''digiKeyProductNumber'', JStr ''A-1'')]"
  let ?vs = "JArr [?v, JObj [(''digiKeyProductNumber'', JStr [])]]"
  let ?p = "JObj [(''name'', JStr ''old''), (''productVariations'', ?vs)]"
  let ?q = "JObj [(''name'', JStr ''new''), (''productVariations'',
     JArr [JObj [(''digiKeyProductNumber'', JStr ''A-1'')], JObj [(''digiKeyProductNumber'', JStr ''B-2'')]])]"
  obtain lut where lut: "build_prod_by_dk (JArr [?p]) (JArr [?q]) = Inr lut"
    by (simp add: build_prod_by_dk_def)
  have "\<exists>lut_base p'. build_prod_by_dk (JArr [?p]) (JArr []) = Inr lut_base
    \<and> lut_base (HStr ''A-1'') = Some p' \<and> p' \<in> set [?p] \<and> lut (HStr ''A-1'') = Some p'"
    by (rule base_precedence [OF lut, of ?p ?vs "[?v, JObj [(''digiKeyProductNumber'', JStr [])]]"
          ?v "JStr ''A-1''"]) simp_all
  with lut show ?thesis by auto
qed

lemma bind_err_assoc:
  "bind_err (bind_err m f) g = bind_err m (\<lambda>x. bind_err (f x) g)"
  by (cases m) simp_all

lemma map_err_member:
  "map_err f xs = Inr ys \<Longrightarrow> x \<in> set xs \<Longrightarrow> f x = Inr y \<Longrightarrow> y \<in> set ys"
  by (induction xs arbitrary: ys) (auto simp: bind_err_eq_Inr)

lemma orders_loop_append:
  "orders_loop lut N (xs @ ys) st = bind_err (orders_loop lut N xs st) (orders_loop lut N ys)"
proof (induction xs arbitrary: st)
  case Nil
  show ?case by simp
next
  case (Cons x xs)
  have "orders_loop lut N (xs @ ys)
      = (\<lambda>st. bind_err (orders_loop lut N xs st) (orders_loop lut N ys))"
    by (rule ext) (rule Cons.IH)
  then show ?case by (simp add: bind_err_assoc)
qed

lemma build_row_key:
  "build_row lut ibi f d key = Inr r \<Longrightarrow> r_detail_key r = key \<and> r_is_new r = f"
  by (auto simp: build_row_def bind_err_eq_Inr Let_def split: prod.splits)

lemma details_loop_result:
  assumes "details_loop lut ibi N dl (seen, rows) = Inr (seen', rows')"
  shows "\<exists>ks new. map_err detail_key dl = Inr ks \<and> seen' = seen \<union> set ks \<and> rows' = rows @ new
    \<and> distinct (map r_detail_key new) \<and> set (map r_detail_key new) = set ks - seen
    \<and> (\<forall>r \<in> set new. r_is_new r = is_new_flag N (r_detail_key r))"
  using assms
proof (induction dl arbitrary: seen rows)
  case Nil
  then show ?case by simp
next
  case (Cons d ds)
  from Cons.prems obtain key where key: "detail_key d = Inr key"
    by (auto simp: bind_err_eq_Inr)
  show ?case
  proof (cases "key \<in> seen")
    case True
    with Cons.prems key have "details_loop lut ibi N ds (seen, rows) = Inr (seen', rows')"
      by simp
    from Cons.IH [OF this] obtain ks new where
      "map_err detail_key ds = Inr ks" "seen' = seen \<union> set ks" "rows' = rows @ new"
      "distinct (map r_detail_key new)" "set (map r_detail_key new) = set ks - seen"
      "\<forall>r \<in> set new. r_is_new r = is_new_flag N (r_detail_key r)"
      by blast
    with key True show ?thesis
      by (intro exI [of _ "key # ks"] exI [of _ new]) auto
  next
    case False
    with Cons.prems key obtain r where
      r: "build_row lut ibi (is_new_flag N key) d key = Inr r"
      and loop: "details_loop lut ibi N ds (insert key seen, rows @ [r]) = Inr (seen', rows')"
      by (auto simp: bind_err_eq_Inr)
    from build_row_key [OF r] have rk: "r_detail_key r = key" "r_is_new r = is_new_flag N key"
      by simp_all
    from Cons.IH [OF loop] obtain ks new where
      ks: "map_err detail_key ds = Inr ks" and s: "seen' = insert key seen \<union> set ks"
      and rs: "rows' = (rows @ [r]) @ new"
      and dist: "distinct (map r_detail_key new)"
      and keys: "set (map r_detail_key new) = set ks - insert key seen"
      and flags: "\<forall>r \<in> set new. r_is_new r = is_new_flag N (r_detail_key r)"
      by blast
    have "map_err detail_key (d # ds) = Inr (key # ks)" using key ks by simp
    moreover have "seen' = seen \<union> set (key # ks)" using s by auto
    moreover have "rows' = rows @ (r # new)" using rs by simp
    moreover have "distinct (map r_detail_key (r # new))" using dist keys rk(1) by auto
    moreover have "set (map r_detail_key (r # new)) = set (key # ks) - seen"
      using keys rk(1) False by auto
    moreover have "\<forall>x \<in> set (r # new). r_is_new x = is_new_flag N (r_detail_key x)"
      using flags rk by simp
    ultimately show ?thesis by blast
  qed
qed

lemma orders_loop_result:
  assumes "orders_loop lut N os (seen, rows) = Inr (seen', rows')"
  shows "\<exists>kss new. map_err order_detail_keys os = Inr kss \<and> seen' = seen \<union> set (concat kss)
    \<and> rows' = rows @ new
    \<and> distinct (map r_detail_key new) \<and> set (map r_detail_key new) = set (concat kss) - seen
    \<and> (\<forall>r \<in> set new. r_is_new r = is_new_flag N (r_detail_key r))"
  using assms
proof (induction os arbitrary: seen rows)
  case Nil
  then show ?case by simp
next
  case (Cons order os)
  from Cons.prems obtain invs il ibi ds dl s1 rows1 where
    ds: "py_get order ''invoiceDetails'' (JArr []) = Inr ds" "py_iter ds = Inr dl"
    and det: "details_loop lut ibi N dl (seen, rows) = Inr (s1, rows1)"
    and loop: "orders_loop lut N os (s1, rows1) = Inr (seen', rows')"
    by (auto simp: bind_err_eq_Inr)
  from details_loop_result [OF det] obtain ks new1 where
    ks: "map_err detail_key dl = Inr ks" and s1: "s1 = seen \<union> set ks"
    and r1: "rows1 = rows @ new1"
    and d1: "distinct (map r_detail_key new1)"
    and k1: "set (map r_detail_key new1) = set ks - seen"
    and f1: "\<forall>r \<in> set new1. r_is_new r = is_new_flag N (r_detail_key r)"
    by blast
  from Cons.IH [OF loop] obtain kss new2 where
    kss: "map_err order_detail_keys os = Inr kss" and s2: "seen' = s1 \<union> set (concat kss)"
    and r2: "rows' = rows1 @ new2"
    and d2: "distinct (map r_detail_key new2)"
    and k2: "set (map r_detail_key new2) = set (concat kss) - s1"
    and f2: "\<forall>r \<in> set new2. r_is_new r = is_new_flag N (r_detail_key r)"
    by blast
  have "order_detail_keys order = Inr ks"
    using ds ks by (simp add: order_detail_keys_def)
  then have "map_err order_detail_keys (order # os) = Inr (ks # kss)"
    using kss by simp
  moreover have "seen' = seen \<union> set (concat (ks # kss))" using s1 s2 by auto
  moreover have "rows' = rows @ (new1 @ new2)" using r1 r2 by simp
  moreover have "distinct (map r_detail_key (new1 @ new2))"
    using d1 d2 k1 k2 s1 by auto
  moreover have "set (map r_detail_key (new1 @ new2)) = set (concat (ks # kss)) - seen"
    using k1 k2 s1 by auto
  moreover have "\<forall>r \<in> set (new1 @ new2). r_is_new r = is_new_flag N (r_detail_key r)"
    using f1 f2 by auto
  ultimately show ?case by blast
qed

lemma details_loop_flags:
  assumes "\<forall>d \<in> set dl. \<forall>k. detail_key d = Inr k \<longrightarrow> is_new_flag N k = is_new_flag N' k"
  shows "details_loop lut ibi N dl st = details_loop lut ibi N' dl st"
  using assms
proof (induction dl arbitrary: st)
  case Nil
  then show ?case by simp
next
  case (Cons d ds)
  obtain seen rows where st: "st = (seen, rows)" by (cases st)
  from Cons.prems have rest: "\<forall>d \<in> set ds. \<forall>k. detail_key d = Inr k \<longrightarrow> is_new_flag N k = is_new_flag N' k"
    by simp
  show ?case
  proof (cases "detail_key d")
    case (Inl e)
    then show ?thesis by (simp add: st)
  next
    case (Inr key)
    with Cons.prems have "is_new_flag N key = is_new_flag N' key" by simp
    with Inr Cons.IH [OF rest] show ?thesis by (simp add: st)
  qed
qed

lemma orders_loop_flags:
  assumes "orders_loop lut N os st = Inr res"
    and "map_err order_detail_keys os = Inr kss"
    and "\<forall>k \<in> set (concat kss). is_new_flag N k = is_new_flag N' k"
  shows "orders_loop lut N' os st = Inr res"
  using assms
proof (induction os arbitrary: st kss)
  case Nil
  then show ?case by simp
next
  case (Cons order os)
  from Cons.prems(1) obtain invs il ibi ds dl st1 where
    iv: "py_get order ''invoices'' (JArr []) = Inr invs" "py_iter invs = Inr il"
      "invoices_dict il Map.empty = Inr ibi"
    and ds: "py_get order ''invoiceDetails'' (JArr []) = Inr ds" "py_iter ds = Inr dl"
    and det: "details_loop lut ibi N dl st = Inr st1"
    and loop: "orders_loop lut N os st1 = Inr res"
    by (auto simp: bind_err_eq_Inr)
  from Cons.prems(2) obtain ks kss' where
    ok: "order_detail_keys order = Inr ks" and kss': "map_err order_detail_keys os = Inr kss'"
    and kss: "kss = ks # kss'"
    by (auto simp: bind_err_eq_Inr)
  from ok ds have ks: "map_err detail_key dl = Inr ks"
    by (simp add: order_detail_keys_def)
  have "\<forall>d \<in> set dl. \<forall>k. detail_key d = Inr k \<longrightarrow> is_new_flag N k = is_new_flag N' k"
    using map_err_member [OF ks] Cons.prems(3) kss by auto
  from details_loop_flags [OF this] det have det': "details_loop lut ibi N' dl st = Inr st1"
    by simp
  have "\<forall>k \<in> set (concat kss'). is_new_flag N k = is_new_flag N' k"
    using Cons.prems(3) kss by simp
  from Cons.IH [OF loop kss' this] have "orders_loop lut N' os st1 = Inr res" .
  with iv ds det' show ?case by simp
qed

lemma iter_detail_keys_JArr:
  "iter_detail_keys (JArr os) = Inr ks \<longleftrightarrow> (\<exists>kss. map_err order_detail_keys os = Inr kss \<and> ks = concat kss)"
  by (auto simp: iter_detail_keys_def bind_err_eq_Inr)

lemma merged_rows_split:
  assumes b: "iter_detail_keys (JArr base) = Inr bkeys"
    and d: "iter_detail_keys (JArr delta) = Inr dkeys"
    and m: "build_rows (JArr (base @ delta)) lut (Some (set dkeys - set bkeys)) = Inr merged_rows"
  shows "\<exists>old_rows new_rows.
      build_rows (JArr base) lut None = Inr old_rows
    \<and> merged_rows = old_rows @ new_rows
    \<and> set (map r_detail_key old_rows) = set bkeys
    \<and> (\<forall>r \<in> set old_rows. \<not> r_is_new r)
    \<and> (\<forall>r \<in> set new_rows. r_is_new r)
    \<and> distinct (map r_detail_key new_rows)
    \<and> set (map r_detail_key new_rows) = set dkeys - set bkeys"
proof -
  let ?N = "Some (set dkeys - set bkeys)"
  from m obtain s2 where "orders_loop lut ?N (base @ delta) ({}, []) = Inr (s2, merged_rows)"
    by (auto simp: build_rows_def bind_err_eq_Inr)
  then obtain s1 rows1 where
    l1: "orders_loop lut ?N base ({}, []) = Inr (s1, rows1)"
    and l2: "orders_loop lut ?N delta (s1, rows1) = Inr (s2, merged_rows)"
    by (auto simp: orders_loop_append bind_err_eq_Inr)
  from orders_loop_result [OF l1] obtain kss1 new1 where
    k1: "map_err order_detail_keys base = Inr kss1" and s1: "s1 = {} \<union> set (concat kss1)"
    and r1: "rows1 = [] @ new1"
    and keys1: "set (map r_detail_key new1) = set (concat kss1) - {}"
    and f1: "\<forall>r \<in> set new1. r_is_new r = is_new_flag ?N (r_detail_key r)"
    by blast
  from b k1 have bk: "bkeys = concat kss1" by (simp add: iter_detail_keys_JArr)
  from orders_loop_result [OF l2] obtain kss2 new2 where
    k2: "map_err order_detail_keys delta = Inr kss2"
    and r2: "merged_rows = rows1 @ new2"
    and d2: "distinct (map r_detail_key new2)"
    and keys2: "set (map r_detail_key new2) = set (concat kss2) - s1"
    and f2: "\<forall>r \<in> set new2. r_is_new r = is_new_flag ?N (r_detail_key r)"
    by blast
  from d k2 have dk: "dkeys = concat kss2" by (simp add: iter_detail_keys_JArr)
  have "\<forall>k \<in> set (concat kss1). is_new_flag ?N k = is_new_flag None k"
    using bk by (simp add: is_new_flag_def)
  from orders_loop_flags [OF l1 k1 this] have "build_rows (JArr base) lut None = Inr rows1"
    by (simp add: build_rows_def)
  moreover have "set (map r_detail_key rows1) = set bkeys"
    using keys1 r1 bk by simp
  moreover have "\<forall>r \<in> set rows1. \<not> r_is_new r"
  proof
    fix r assume "r \<in> set rows1"
    with r1 f1 keys1 bk have "r_is_new r = is_new_flag ?N (r_detail_key r)"
      and "r_detail_key r \<in> set bkeys" by auto
    then show "\<not> r_is_new r" by (simp add: is_new_flag_def)
  qed
  moreover have "\<forall>r \<in> set new2. r_is_new r"
  proof
    fix r assume r: "r \<in> set new2"
    then have "r_detail_key r \<in> set (map r_detail_key new2)" by simp
    with keys2 s1 bk dk have "r_detail_key r \<in> set dkeys - set bkeys" by simp
    with f2 r show "r_is_new r" by (auto simp: is_new_flag_def)
  qed
  moreover have "set (map r_detail_key new2) = set dkeys - set bkeys"
    using keys2 s1 bk dk by simp
  ultimately show ?thesis using r2 d2 by blast
qed

lemma schema_columns: "\<forall>col \<in> set FUTURE_FULL_SCHEMA. column col \<noteq> None"
  by (simp add: FUTURE_FULL_SCHEMA_def column_def row_columns_def)

text \<open>
  With the new-key set the difference of the delta keys and the base keys, the number of
  rows of the merged projection that are flagged new is the size of that difference.
\<close>

lemma new_rows_counted:
  assumes "iter_detail_keys (JArr base) = Inr bkeys"
    and "iter_detail_keys (JArr delta) = Inr dkeys"
    and "build_rows (JArr (base @ delta)) lut (Some (set dkeys - set bkeys)) = Inr merged_rows"
  shows "length (filter r_is_new merged_rows) = card (set dkeys - set bkeys)"
proof -
  from merged_rows_split [OF assms] obtain old_rows new_rows where
    split: "merged_rows = old_rows @ new_rows"
    and old: "\<forall>r \<in> set old_rows. \<not> r_is_new r" and new: "\<forall>r \<in> set new_rows. r_is_new r"
    and dist: "distinct (map r_detail_key new_rows)"
    and keys: "set (map r_detail_key new_rows) = set dkeys - set bkeys"
    by blast
  have "filter r_is_new merged_rows = new_rows"
    using split old new by (simp add: filter_empty_conv)
  then have "length (filter r_is_new merged_rows) = length (map r_detail_key new_rows)"
    by simp
  also have "\<dots> = card (set (map r_detail_key new_rows))"
    using dist by (rule distinct_card [symmetric])
  finally show ?thesis using keys by simp
qed

text \<open>
  So check A never fails its assertion on the frames of a run: it passes when the merged
  projection has a row, and raises KeyError when it has none.
\<close>

lemma check_A_on_merged_rows:
  assumes "iter_detail_keys (JArr base) = Inr bkeys"
    and "iter_detail_keys (JArr delta) = Inr dkeys"
    and "build_rows (JArr (base @ delta)) lut (Some (set dkeys - set bkeys)) = Inr merged_rows"
  shows "check_A (set dkeys - set bkeys) merged_rows
    = (if merged_rows = [] then Inl KeyError else Inr ())"
  using new_rows_counted [OF assms] by (simp add: check_A_def)

text \<open>
  The rows projected from base alone are the rows of the merged projection that are not
  flagged new, in the same order and equal field by field.
\<close>

lemma old_rows_same:
  assumes "iter_detail_keys (JArr base) = Inr bkeys"
    and "iter_detail_keys (JArr delta) = Inr dkeys"
    and "build_rows (JArr base) lut None = Inr base_rows"
    and "build_rows (JArr (base @ delta)) lut (Some (set dkeys - set bkeys)) = Inr merged_rows"
  shows "filter (\<lambda>r. \<not> r_is_new r) merged_rows = base_rows"
proof -
  from merged_rows_split [OF assms(1,2,4)] assms(3) obtain new_rows where
    split: "merged_rows = base_rows @ new_rows"
    and old: "\<forall>r \<in> set base_rows. \<not> r_is_new r" and new: "\<forall>r \<in> set new_rows. r_is_new r"
    by auto
  show ?thesis
    using split old new by (simp add: filter_empty_conv)
qed

lemma py_eq_refl: "py_eq x x"
  by (cases x) (auto simp: py_eq_def split: sum.splits)

lemma series_equals_same_values:
  "s_dtype a = s_dtype b \<Longrightarrow> s_index a = s_index b \<Longrightarrow> s_values a = s_values b
     \<Longrightarrow> series_equals a b"
  by (simp add: series_equals_def list_all2_same py_eq_refl)

text \<open>
  Check B passes on two frames with the same old rows when the base frame has a row and
  every column of the stable schema gets the same dtype in both frames.
\<close>

lemma check_columns_same_dtypes:
  assumes "df_base \<noteq> []" and "filter (\<lambda>r. \<not> r_is_new r) df_merged = df_base"
    and "\<forall>col \<in> set cols. \<exists>f. column col = Some f
           \<and> infer_dtype (map f df_merged) = infer_dtype (map f df_base)"
  shows "check_columns cols df_base df_merged = Inr ()"
  using assms(3)
proof (induction cols)
  case Nil
  show ?case by simp
next
  case (Cons col cols)
  from Cons.prems obtain f where f: "column col = Some f"
    and dt: "infer_dtype (map f df_merged) = infer_dtype (map f df_base)"
    by auto
  from assms(1,2) have ne: "df_merged \<noteq> []" by auto
  define a where "a = \<lparr>s_dtype = infer_dtype (map f df_base), s_index = map r_detail_key df_base,
    s_values = map (\<lambda>r. stored (infer_dtype (map f df_base)) (f r)) df_base\<rparr>"
  have ka: "keyed_column col df_base (\<lambda>r. True) = Inr a"
    using assms(1) f by (simp add: keyed_column_def a_def Let_def)
  have kb: "keyed_column col df_merged (\<lambda>r. \<not> r_is_new r) = Inr a"
    using ne f dt assms(2) by (simp add: keyed_column_def a_def Let_def)
  have "series_equals (series_fillna a) (series_fillna a)"
    by (rule series_equals_same_values) simp_all
  moreover have "check_columns cols df_base df_merged = Inr ()"
    using Cons.IH Cons.prems by simp
  ultimately show ?case using ka kb by simp
qed

lemma check_B_same_dtypes:
  assumes "df_base \<noteq> []" and "filter (\<lambda>r. \<not> r_is_new r) df_merged = df_base"
    and "\<forall>col \<in> set FUTURE_FULL_SCHEMA. \<exists>f. column col = Some f
           \<and> infer_dtype (map f df_merged) = infer_dtype (map f df_base)"
  shows "check_B df_base df_merged = Inr ()"
proof -
  from assms(1,2) have "df_merged \<noteq> []" by auto
  with assms(1,2) check_columns_same_dtypes [OF assms] show ?thesis
    by (simp add: check_B_def)
qed

lemmas ex_eval =
  build_rows_def detail_key_def hash_tuple_def build_row_def dict_get_def category_t2_def
  product_fields_def mcu_fields_def build_other_params_dict_def is_new_flag_def
  ex_lut_def ex_module_def ex_mcu_def py_or_def is_mcu_product_def walk.simps
  str_lower_def lower_char_def upper_chars_def lower_chars_def starts_with_def
  extract_mcu_fields_def mcu_params_def dict_get_default_def Let_def
  MCU_PROMOTED_PARAM_TEXTS_def dict_setitem_def

lemma build_row_other:
  "build_row lut ibi f d key = Inr r \<Longrightarrow>
     \<exists>h. hash_key (r_dk_pn r) = Inr h
       \<and> build_other_params_dict (dict_get lut h) = Inr (r_other_dict r)
       \<and> r_other_parameters r = Dumps (r_other_dict r)"
  by (auto simp: build_row_def bind_err_eq_Inr Let_def split: prod.splits)

lemma details_loop_rows:
  assumes "details_loop lut ibi N dl (seen, rows) = Inr (seen', rows')" and "r \<in> set rows'"
  shows "r \<in> set rows \<or> (\<exists>f d key. build_row lut ibi f d key = Inr r)"
  using assms
proof (induction dl arbitrary: seen rows)
  case Nil
  then show ?case by simp
next
  case (Cons d ds)
  from Cons.prems(1) obtain key where key: "detail_key d = Inr key"
    by (auto simp: bind_err_eq_Inr)
  show ?case
  proof (cases "key \<in> seen")
    case True
    with Cons.prems(1) key have "details_loop lut ibi N ds (seen, rows) = Inr (seen', rows')"
      by simp
    from Cons.IH [OF this Cons.prems(2)] show ?thesis .
  next
    case False
    with Cons.prems(1) key obtain x where
      x: "build_row lut ibi (is_new_flag N key) d key = Inr x"
      and loop: "details_loop lut ibi N ds (insert key seen, rows @ [x]) = Inr (seen', rows')"
      by (auto simp: bind_err_eq_Inr)
    from Cons.IH [OF loop Cons.prems(2)]
    have "r \<in> set rows \<or> r = x \<or> (\<exists>f d key. build_row lut ibi f d key = Inr r)"
      by auto
    with x show ?thesis by blast
  qed
qed

lemma orders_loop_rows:
  assumes "orders_loop lut N os (seen, rows) = Inr (seen', rows')" and "r \<in> set rows'"
  shows "r \<in> set rows \<or> (\<exists>ibi f d key. build_row lut ibi f d key = Inr r)"
  using assms
proof (induction os arbitrary: seen rows)
  case Nil
  then show ?case by simp
next
  case (Cons order os)
  from Cons.prems(1) obtain ibi dl s1 rows1 where
    det: "details_loop lut ibi N dl (seen, rows) = Inr (s1, rows1)"
    and loop: "orders_loop lut N os (s1, rows1) = Inr (seen', rows')"
    by (auto simp: bind_err_eq_Inr)
  from Cons.IH [OF loop Cons.prems(2)] details_loop_rows [OF det] show ?case by blast
qed

text \<open>
  C1 as stated fails in its first half: the blob of a row whose product is not
  MCU-classified does not hold every parameter of the product. The four promoted names are
  left out of every blob, whatever the classification.
\<close>

theorem blob_non_mcu_counterexample:
  "\<not> (\<forall>doc lut N rows r h params k v.
        build_rows doc lut N = Inr rows \<and> r \<in> set rows \<and> hash_key (r_dk_pn r) = Inr h
        \<and> is_mcu_product (dict_get lut h) = Inr False
        \<and> mcu_params (dict_get lut h) = Inr params \<and> params k = Some v
        \<longrightarrow> dict_lookup (r_other_dict r) k = Some v)"
proof
  let ?doc = "JArr [JObj [(''invoiceDetails'', JArr [
               JObj [(''invoiceId'', JInt 7), (''detailId'', JInt 1),
                     (''digiKeyProductNumber'', JStr ''A-1'')]])]]"
  let ?params = "[HStr ''Core Processor'' \<mapsto> JStr ''ESP32'', HStr ''Mounting Type'' \<mapsto> JStr ''SMD'']"
  assume a: "\<forall>doc lut N rows r h params k v.
        build_rows doc lut N = Inr rows \<and> r \<in> set rows \<and> hash_key (r_dk_pn r) = Inr h
        \<and> is_mcu_product (dict_get lut h) = Inr False
        \<and> mcu_params (dict_get lut h) = Inr params \<and> params k = Some v
        \<longrightarrow> dict_lookup (r_other_dict r) k = Some v"
  have "\<exists>r. build_rows ?doc ex_lut None = Inr [r] \<and> r_dk_pn r = JStr ''A-1''
      \<and> r_other_dict r = [(JStr ''Mounting Type'', JStr ''SMD'')]"
    by (simp add: ex_eval)
  then obtain r where rows: "build_rows ?doc ex_lut None = Inr [r]"
    and dk: "r_dk_pn r = JStr ''A-1''"
    and other: "r_other_dict r = [(JStr ''Mounting Type'', JStr ''SMD'')]"
    by blast
  have h: "hash_key (r_dk_pn r) = Inr (HStr ''A-1'')" using dk by simp
  have mcu: "is_mcu_product (dict_get ex_lut (HStr ''A-1'')) = Inr False"
    by (simp add: ex_eval)
  have params: "mcu_params (dict_get ex_lut (HStr ''A-1'')) = Inr ?params"
    by (simp add: ex_eval)
  have k: "?params (HStr ''Core Processor'') = Some (JStr ''ESP32'')" by simp
  have "dict_lookup (r_other_dict r) (HStr ''Core Processor'') = Some (JStr ''ESP32'')"
    by (rule a [rule_format, of ?doc ex_lut None "[r]" r "HStr ''A-1''" ?params
          "HStr ''Core Processor''" "JStr ''ESP32''"])
       (simp add: rows h mcu params)
  then show False by (simp add: other dict_lookup_def)
qed

text \<open>
  C1, amended. For every projected row, MCU-classified or not: the blob is the JSON text of
  the row's parameter dict; without a product the dict is empty; with a product it holds
  every parameter of the product (the last value of a repeated name) except the four
  promoted names Core Processor, Core Size, Speed and Program Memory Size, and nothing
  else.
\<close>

theorem other_parameters_blob:
  assumes "build_rows doc lut N = Inr rows" and "r \<in> set rows"
  shows "\<exists>h. hash_key (r_dk_pn r) = Inr h
    \<and> r_other_parameters r = Dumps (r_other_dict r)
    \<and> (\<not> truthy (dict_get lut h) \<longrightarrow> r_other_dict r = [])
    \<and> (truthy (dict_get lut h) \<longrightarrow>
         (\<exists>params. mcu_params (dict_get lut h) = Inr params
           \<and> (\<forall>k. dict_lookup (r_other_dict r) k =
                 (if k \<in> HStr ` set MCU_PROMOTED_PARAM_TEXTS then None else params k))))"
proof -
  from assms(1) obtain orders seen where "orders_loop lut N orders ({}, []) = Inr (seen, rows)"
    by (auto simp: build_rows_def bind_err_eq_Inr)
  from orders_loop_rows [OF this assms(2)] obtain ibi f d key where
    "build_row lut ibi f d key = Inr r"
    by auto
  from build_row_other [OF this] obtain h where h: "hash_key (r_dk_pn r) = Inr h"
    and o: "build_other_params_dict (dict_get lut h) = Inr (r_other_dict r)"
    and p: "r_other_parameters r = Dumps (r_other_dict r)"
    by blast
  have "\<not> truthy (dict_get lut h) \<longrightarrow> r_other_dict r = []"
    using o by (auto simp: build_other_params_dict_def)
  moreover have "truthy (dict_get lut h) \<longrightarrow>
         (\<exists>params. mcu_params (dict_get lut h) = Inr params
           \<and> (\<forall>k. dict_lookup (r_other_dict r) k =
                 (if k \<in> HStr ` set MCU_PROMOTED_PARAM_TEXTS then None else params k)))"
    using build_other_params_dict_lookup [OF _ o] by blast
  ultimately show ?thesis using h p by blast
qed

theorem other_parameters_blob_witness:
  "\<exists>r. build_rows (JArr [JObj [(''invoiceDetails'', JArr [
               JObj [(''invoiceId'', JInt 8), (''detailId'', JInt 1),
                     (''digiKeyProductNumber'', JStr ''M-3'')]])]]) ex_lut None = Inr [r]
     \<and> truthy (dict_get ex_lut (HStr ''M-3''))
     \<and> dict_lookup (r_other_dict r) (HStr ''Voltage'') = Some (JStr ''5V'')
     \<and> dict_lookup (r_other_dict r) (HStr ''Core Processor'') = None"
proof -
  let ?doc = "JArr [JObj [(''invoiceDetails'', JArr [
               JObj [(''invoiceId'', JInt 8), (''detailId'', JInt 1),
                     (''digiKeyProductNumber'', JStr ''M-3'')]])]]"
  let ?params = "[HStr ''Core Processor'' \<mapsto> JStr ''AVR'', HStr ''Voltage'' \<mapsto> JStr ''5V'']"
  have "\<exists>r. build_rows ?doc ex_lut None = Inr [r] \<and> r_dk_pn r = JStr ''M-3''"
    by (simp add: ex_eval)
  then obtain r where rows: "build_rows ?doc ex_lut None = Inr [r]"
    and dk: "r_dk_pn r = JStr ''M-3''"
    by blast
  have t: "truthy (dict_get ex_lut (HStr ''M-3''))"
    by (simp add: ex_eval)
  have params: "mcu_params (dict_get ex_lut (HStr ''M-3'')) = Inr ?params"
    by (simp add: ex_eval)
  have "r \<in> set [r]" by simp
  from other_parameters_blob [OF rows this] dk t params
  have "\<forall>k. dict_lookup (r_other_dict r) k =
     (if k \<in> HStr ` set MCU_PROMOTED_PARAM_TEXTS then None else ?params k)"
    by auto
  then have "dict_lookup (r_other_dict r) (HStr ''Voltage'') = Some (JStr ''5V'')"
    and "dict_lookup (r_other_dict r) (HStr ''Core Processor'') = None"
    by (simp_all add: MCU_PROMOTED_PARAM_TEXTS_def)
  with rows t show ?thesis by blast
qed

lemma sort_key_head_min:
  assumes "sort_key f xs = y # ys" and "x \<in> set xs"
  shows "f y \<le> f x"
proof -
  have "sorted (map f (sort_key f xs))" by (rule sorted_sort_key)
  with assms(1) have "\<forall>z \<in> set ys. f y \<le> f z" by simp
  moreover have "x \<in> set (y # ys)" using assms by (metis set_sort)
  ultimately show ?thesis by auto
qed

lemma sorted_le_last:
  "sorted zs \<Longrightarrow> z \<in> set zs \<Longrightarrow> z \<le> last zs"
  by (induction zs) (auto simp: last_in_set)

lemma sort_key_last_max:
  assumes "x \<in> set xs"
  shows "f x \<le> f (last (sort_key f xs))"
proof -
  have ne: "sort_key f xs \<noteq> []" using assms by (metis empty_iff empty_set set_sort)
  have "sorted (map f (sort_key f xs))" by (rule sorted_sort_key)
  moreover have "f x \<in> set (map f (sort_key f xs))" using assms by simp
  ultimately have "f x \<le> last (map f (sort_key f xs))" by (rule sorted_le_last)
  then show ?thesis using ne by (simp add: last_map)
qed

lemma map_err_image:
  "map_err f xs = Inr ys \<Longrightarrow> y \<in> set ys \<Longrightarrow> \<exists>x \<in> set xs. f x = Inr y"
  by (induction xs arbitrary: ys) (auto simp: bind_err_eq_Inr)

lemma map_err_total:
  "map_err f xs = Inr ys \<Longrightarrow> x \<in> set xs \<Longrightarrow> \<exists>y \<in> set ys. f x = Inr y"
  by (induction xs arbitrary: ys) (auto simp: bind_err_eq_Inr)

text \<open>
  C5. Of at least two files of one kind, the selector takes as delta a file of smallest
  size and as base one of the remaining files: one whose identity keys have the fewest
  elements in common with the delta's, and of the largest size among those with that
  overlap.
\<close>

theorem select_base_delta_rule:
  assumes "select_base_delta kind paths = Inr (base, delta)"
  shows "delta \<in> set paths \<and> (\<forall>p \<in> set paths. f_size delta \<le> f_size p)
    \<and> (\<exists>candidates delta_doc dks ob.
          mset paths = add_mset delta (mset candidates)
        \<and> load_json delta = Inr delta_doc \<and> kind_keys kind delta_doc = Inr dks
        \<and> base \<in> set candidates \<and> overlap kind (set dks) base = Inr ob
        \<and> (\<forall>c \<in> set candidates. \<exists>oc. overlap kind (set dks) c = Inr oc
              \<and> ob \<le> oc \<and> (oc = ob \<longrightarrow> f_size c \<le> f_size base)))"
proof -
  let ?score = "\<lambda>dks p. bind_err (overlap kind (set dks) p) (\<lambda>ov. Inr (ov, - int (f_size p), p))"
  let ?key = "\<lambda>(ov :: nat, neg_size :: int, p :: 'a json_file). (ov, neg_size, f_path p)"
  from assms have len: "\<not> length paths < 2"
    by (auto simp: select_base_delta_def split: if_splits)
  then obtain d candidates where srt0: "sort_key f_size paths = d # candidates"
    by (cases "sort_key f_size paths") (auto dest: arg_cong [where f = length])
  from assms len srt0 obtain delta_doc dks scored where
    dd0: "load_json d = Inr delta_doc" and dks: "kind_keys kind delta_doc = Inr dks"
    and sc: "map_err (?score dks) candidates = Inr scored"
    and fin: "(case sort_key ?key scored of [] \<Rightarrow> Inl IndexError
               | (ov, neg_size, b) # rest \<Rightarrow> Inr (b, d)) = Inr (base, delta)"
    by (auto simp: select_base_delta_def bind_err_eq_Inr Let_def)
  from fin obtain ob ns rest where
    hd: "sort_key ?key scored = (ob, ns, base) # rest" and d: "d = delta"
    by (auto split: list.splits prod.splits)
  from srt0 dd0 d have srt: "sort_key f_size paths = delta # candidates"
    and dd: "load_json delta = Inr delta_doc"
    by simp_all
  have "(ob, ns, base) \<in> set (sort_key ?key scored)" using hd by simp
  then have "(ob, ns, base) \<in> set scored" by simp
  from map_err_image [OF sc this]
  obtain c where c: "c \<in> set candidates" "?score dks c = Inr (ob, ns, base)"
    by blast
  then have base: "base \<in> set candidates" "overlap kind (set dks) base = Inr ob"
    and ns: "ns = - int (f_size base)"
    by (auto simp: bind_err_eq_Inr)
  have least: "\<exists>oc. overlap kind (set dks) c = Inr oc \<and> ob \<le> oc
      \<and> (oc = ob \<longrightarrow> f_size c \<le> f_size base)" if "c \<in> set candidates" for c
  proof -
    from map_err_total [OF sc that] obtain y where y: "y \<in> set scored" "?score dks c = Inr y"
      by blast
    then obtain oc where oc: "overlap kind (set dks) c = Inr oc" "y = (oc, - int (f_size c), c)"
      by (auto simp: bind_err_eq_Inr)
    from sort_key_head_min [OF hd y(1)] oc(2) ns
    have "(ob, - int (f_size base), f_path base) \<le> (oc, - int (f_size c), f_path c)"
      by simp
    then have "ob \<le> oc \<and> (oc = ob \<longrightarrow> f_size c \<le> f_size base)"
      by (auto simp: less_eq_prod_def)
    with oc(1) show ?thesis by blast
  qed
  have "delta \<in> set (sort_key f_size paths)" using srt by simp
  then have "delta \<in> set paths" by simp
  moreover have "\<forall>p \<in> set paths. f_size delta \<le> f_size p"
    using sort_key_head_min [OF srt] by blast
  moreover have "mset paths = add_mset delta (mset candidates)"
    using srt by (metis mset.simps(2) mset_sort)
  ultimately show ?thesis using dd dks base least by blast
qed

text \<open>
  C6. With \<open>m\<close> the entry of fewest columns (smallest size among those): when some readable
  file has as many rows as \<open>m\<close> and more columns, mini is \<open>m\<close> and full is such a file, the
  largest of them by size (most columns among those of that size); when there is none,
  full is a readable file of largest size and mini one of smallest size.
\<close>

theorem discover_csv_pair_rule:
  assumes "discover_csv_pair csv_paths = Inr (full, mini)"
  shows "\<exists>m \<in> set (csv_info csv_paths).
      (\<forall>x \<in> set (csv_info csv_paths).
          e_ncols m < e_ncols x \<or> (e_ncols m = e_ncols x \<and> e_size m \<le> e_size x))
    \<and> ((\<exists>x \<in> set (csv_info csv_paths). e_nrows x = e_nrows m \<and> e_ncols m < e_ncols x) \<longrightarrow>
          mini = e_path m
          \<and> (\<exists>f \<in> set (csv_info csv_paths).
                full = e_path f \<and> e_nrows f = e_nrows m \<and> e_ncols m < e_ncols f
              \<and> (\<forall>x \<in> set (csv_info csv_paths).
                    e_nrows x = e_nrows m \<and> e_ncols m < e_ncols x \<longrightarrow>
                    e_size x < e_size f \<or> (e_size x = e_size f \<and> e_ncols x \<le> e_ncols f))))
    \<and> (\<not> (\<exists>x \<in> set (csv_info csv_paths). e_nrows x = e_nrows m \<and> e_ncols m < e_ncols x) \<longrightarrow>
          (\<exists>f \<in> set (csv_info csv_paths).
                full = e_path f \<and> (\<forall>x \<in> set (csv_info csv_paths). e_size x \<le> e_size f))
          \<and> (\<exists>s \<in> set (csv_info csv_paths).
                mini = e_path s \<and> (\<forall>x \<in> set (csv_info csv_paths). e_size s \<le> e_size x)))"
proof -
  let ?info = "csv_info csv_paths"
  let ?cands = "\<lambda>m. filter (\<lambda>x. e_nrows x = e_nrows m \<and> e_ncols x > e_ncols m) ?info"
  from assms have len: "\<not> length csv_paths < 2" and ne: "?info \<noteq> []"
    by (auto simp: discover_csv_pair_def Let_def split: if_splits)
  then obtain m rest where srt: "sort_key (\<lambda>x. (e_ncols x, e_size x)) ?info = m # rest"
    by (cases "sort_key (\<lambda>x. (e_ncols x, e_size x)) ?info")
       (auto dest: arg_cong [where f = length])
  have "m \<in> set (sort_key (\<lambda>x. (e_ncols x, e_size x)) ?info)" using srt by simp
  then have m_in: "m \<in> set ?info" by (simp only: set_sort)
  have m_min: "\<forall>x \<in> set ?info.
      e_ncols m < e_ncols x \<or> (e_ncols m = e_ncols x \<and> e_size m \<le> e_size x)"
  proof
    fix x assume "x \<in> set ?info"
    from sort_key_head_min [OF srt this]
    show "e_ncols m < e_ncols x \<or> (e_ncols m = e_ncols x \<and> e_size m \<le> e_size x)"
      by (auto simp: less_eq_prod_def)
  qed
  define Q where "Q \<longleftrightarrow> (\<exists>x \<in> set ?info. e_nrows x = e_nrows m \<and> e_ncols m < e_ncols x)"
  define A where "A \<longleftrightarrow> mini = e_path m
          \<and> (\<exists>f \<in> set ?info.
                full = e_path f \<and> e_nrows f = e_nrows m \<and> e_ncols m < e_ncols f
              \<and> (\<forall>x \<in> set ?info.
                    e_nrows x = e_nrows m \<and> e_ncols m < e_ncols x \<longrightarrow>
                    e_size x < e_size f \<or> (e_size x = e_size f \<and> e_ncols x \<le> e_ncols f)))"
  define B where "B \<longleftrightarrow> (\<exists>f \<in> set ?info.
                full = e_path f \<and> (\<forall>x \<in> set ?info. e_size x \<le> e_size f))
          \<and> (\<exists>s \<in> set ?info.
                mini = e_path s \<and> (\<forall>x \<in> set ?info. e_size s \<le> e_size x))"
  have "(Q \<longrightarrow> A) \<and> (\<not> Q \<longrightarrow> B)"
  proof (cases "?cands m = []")
    case False
    then obtain f rest' where
      fs: "sort_key (\<lambda>x. (- int (e_size x), - int (e_ncols x))) (?cands m) = f # rest'"
      by (cases "sort_key (\<lambda>x. (- int (e_size x), - int (e_ncols x))) (?cands m)")
         (auto dest: arg_cong [where f = length])
    from assms len ne srt False fs have res: "full = e_path f" "mini = e_path m"
      by (simp_all add: discover_csv_pair_def Let_def)
    have "f \<in> set (sort_key (\<lambda>x. (- int (e_size x), - int (e_ncols x))) (?cands m))"
      using fs by simp
    then have f_in: "f \<in> set (?cands m)" by (simp only: set_sort)
    have f_max: "\<forall>x \<in> set ?info. e_nrows x = e_nrows m \<and> e_ncols m < e_ncols x \<longrightarrow>
        e_size x < e_size f \<or> (e_size x = e_size f \<and> e_ncols x \<le> e_ncols f)"
    proof (intro ballI impI)
      fix x assume "x \<in> set ?info" and "e_nrows x = e_nrows m \<and> e_ncols m < e_ncols x"
      then have "x \<in> set (?cands m)" by simp
      from sort_key_head_min [OF fs this]
      show "e_size x < e_size f \<or> (e_size x = e_size f \<and> e_ncols x \<le> e_ncols f)"
        by (auto simp: less_eq_prod_def)
    qed
    from f_in have f_props: "f \<in> set ?info" "e_nrows f = e_nrows m" "e_ncols m < e_ncols f"
      by simp_all
    have Q unfolding Q_def
      by (rule bexI [of _ f]) (simp_all add: f_props)
    moreover have A unfolding A_def
      by (intro conjI bexI [of _ f]) (rule res f_props f_max)+
    ultimately show ?thesis by simp
  next
    case True
    let ?s = "sort_key e_size ?info"
    from assms len ne srt True have res: "full = e_path (last ?s)" "mini = e_path (hd ?s)"
      by (simp_all add: discover_csv_pair_def Let_def)
    have sne: "?s \<noteq> []" using ne by (metis length_0_conv length_sort)
    have "last ?s \<in> set ?s" using sne by (rule last_in_set)
    then have last_in: "last ?s \<in> set ?info" by (simp only: set_sort)
    have "hd ?s \<in> set ?s" using sne by (rule hd_in_set)
    then have hd_in: "hd ?s \<in> set ?info" by (simp only: set_sort)
    have mx: "\<forall>x \<in> set ?info. e_size x \<le> e_size (last ?s)"
    proof
      fix x assume "x \<in> set ?info"
      then show "e_size x \<le> e_size (last ?s)" by (rule sort_key_last_max)
    qed
    obtain h t where ht: "?s = h # t" using sne by (cases ?s) auto
    have mn: "\<forall>x \<in> set ?info. e_size (hd ?s) \<le> e_size x"
    proof
      fix x assume "x \<in> set ?info"
      from sort_key_head_min [OF ht this] show "e_size (hd ?s) \<le> e_size x"
        by (simp add: ht)
    qed
    have "\<not> Q" unfolding Q_def using True by (auto simp: filter_empty_conv)
    moreover have B unfolding B_def
      by (intro conjI bexI [of _ "last ?s"] bexI [of _ "hd ?s"]) (rule res last_in hd_in mx mn)+
    ultimately show ?thesis by simp
  qed
  then have "(\<forall>x \<in> set ?info.
          e_ncols m < e_ncols x \<or> (e_ncols m = e_ncols x \<and> e_size m \<le> e_size x))
      \<and> (Q \<longrightarrow> A) \<and> (\<not> Q \<longrightarrow> B)"
    using m_min by (intro conjI) blast+
  then show ?thesis
    unfolding Q_def A_def B_def using m_in by (rule bexI)
qed

lemma ex_select:
  "select_base_delta ''product'' ex_product_files
     = Inr (\<lparr>f_path = 1, f_size = 900, f_doc = Some ex_products_a\<rparr>,
            \<lparr>f_path = 2, f_size = 100, f_doc = Some ex_products_b\<rparr>)"
  by (simp add: select_base_delta_def ex_product_files_def load_json_def kind_keys_def
        overlap_def iter_prod_dk_keys_def product_dk_keys_def Let_def
        ex_products_a_def ex_products_b_def ex_products_ab_def)

theorem select_base_delta_rule_witness:
  "select_base_delta ''product'' ex_product_files
     = Inr (\<lparr>f_path = 1, f_size = 900, f_doc = Some ex_products_a\<rparr>,
            \<lparr>f_path = 2, f_size = 100, f_doc = Some ex_products_b\<rparr>)
   \<and> \<lparr>f_path = 2, f_size = 100, f_doc = Some ex_products_b\<rparr> \<in> set ex_product_files
   \<and> (\<exists>candidates. mset ex_product_files
          = add_mset \<lparr>f_path = 2, f_size = 100, f_doc = Some ex_products_b\<rparr> (mset candidates)
        \<and> \<lparr>f_path = 1, f_size = 900, f_doc = Some ex_products_a\<rparr> \<in> set candidates)"
proof -
  define b :: "nat json_file" where "b = \<lparr>f_path = 1, f_size = 900, f_doc = Some ex_products_a\<rparr>"
  define d :: "nat json_file" where "d = \<lparr>f_path = 2, f_size = 100, f_doc = Some ex_products_b\<rparr>"
  define kind where "kind = ''product''"
  have ev: "select_base_delta kind ex_product_files = Inr (b, d)"
    unfolding b_def d_def kind_def by (rule ex_select)
  from select_base_delta_rule [OF ev]
  have "d \<in> set ex_product_files
    \<and> (\<exists>candidates. mset ex_product_files = add_mset d (mset candidates) \<and> b \<in> set candidates)"
    by blast
  with ev show ?thesis unfolding b_def d_def kind_def by (rule conjI)
qed

lemma ex_csv_pair: "discover_csv_pair ex_csv_files = Inr (2, 1)"
  by (simp add: discover_csv_pair_def ex_csv_files_def Let_def)

theorem discover_csv_pair_rule_witness:
  "discover_csv_pair ex_csv_files = Inr (2, 1)
   \<and> (\<exists>s \<in> set (csv_info ex_csv_files). e_path s = 1)
   \<and> (\<exists>f \<in> set (csv_info ex_csv_files). e_path f = 2)"
proof -
  define full :: nat where "full = 2"
  define mini :: nat where "mini = 1"
  have ev: "discover_csv_pair ex_csv_files = Inr (full, mini)"
    unfolding full_def mini_def by (rule ex_csv_pair)
  from discover_csv_pair_rule [OF ev]
  have "(\<exists>s \<in> set (csv_info ex_csv_files). e_path s = mini)
    \<and> (\<exists>f \<in> set (csv_info ex_csv_files). e_path f = full)"
    by metis
  with ev show ?thesis unfolding full_def mini_def by (rule conjI)
qed

lemmas run_eval =
  run_pipeline_def steps_1_to_4_def steps_5_to_10_def write_outputs_def
  discover_json_base_delta_def classify_file_def select_base_delta_def
  ex_product_files_def ex_products_a_def ex_products_b_def
  ex_products_ab_def has_key_def load_json_def kind_keys_def
  overlap_def iter_detail_keys_def order_detail_keys_def iter_prod_dk_keys_def
  product_dk_keys_def build_prod_by_dk_def
  build_rows_def detail_key_def hash_tuple_def build_row_def dict_get_def
  category_t2_def product_fields_def mcu_fields_def build_other_params_dict_def
  is_new_flag_def py_or_def is_mcu_product_def walk.simps
  MCU_PROMOTED_PARAM_TEXTS_def dict_setitem_def Let_def

lemmas check_eval =
  check_A_def check_B_def check_C_def keyed_column_def infer_dtype_def series_fillna_def
  series_equals_def py_eq_def column_def row_columns_def fillna_def
  FUTURE_FULL_SCHEMA_def mcu_cols_def

text \<open>
  C3. At a base and a delta that hold no line item, which is what both documents
  \<^verbatim>\<open>[{"invoiceDetails": []}]\<close> are, the merged projection has no row: the number of rows
  flagged new is 0 and so is the size of the difference of the key sets, as the claim
  says. Check A does not pass there: \<^verbatim>\<open>df_merged["_is_new"]\<close> raises KeyError on the
  frame made from no rows, and the run ends with that exception and no file written.
\<close>

theorem check_A_no_rows:
  "iter_detail_keys (JArr ex_no_items) = Inr []
   \<and> build_rows (JArr (ex_no_items @ ex_no_items)) Map.empty (Some (set [] - set [])) = Inr []
   \<and> length (filter r_is_new ([] :: row list)) = card (set ([] :: hkey list) - set [])
   \<and> check_A (set [] - set []) [] = Inl KeyError
   \<and> run_pipeline ex_no_items_files ex_csv_files (\<lambda>p. Inr 3)
       = \<lparr>written = [], raised = Some KeyError\<rparr>"
proof -
  have k: "iter_detail_keys (JArr ex_no_items) = Inr []"
    by (simp add: ex_no_items_def iter_detail_keys_def order_detail_keys_def)
  have m: "build_rows (JArr (ex_no_items @ ex_no_items)) Map.empty (Some (set [] - set [])) = Inr []"
    by (simp add: ex_no_items_def build_rows_def)
  from new_rows_counted [OF k k m]
  have n: "length (filter r_is_new ([] :: row list)) = card (set ([] :: hkey list) - set [])" .
  from check_A_on_merged_rows [OF k k m]
  have a: "check_A (set [] - set []) [] = Inl KeyError" by simp
  have r: "run_pipeline ex_no_items_files ex_csv_files (\<lambda>p. Inr 3)
       = \<lparr>written = [], raised = Some KeyError\<rparr>"
    by (simp add: ex_no_items_files_def ex_no_items_def ex_csv_pair run_eval check_A_def)
  show ?thesis
    by (intro conjI) (rule k m n a r)+
qed

text \<open>
  C2. At a base of two line items shipped in quantities 5 and 3 and a delta of one other
  line item whose quantity shipped is null, the rows of the merged projection that are
  not flagged new are the rows projected from base alone, as the claim says: the same
  identity keys and the same value in every column. Check B does not pass there: the
  column \<^verbatim>\<open>qty_shipped\<close> is of dtype int64 in the base frame and of dtype float64 in the
  merged frame, where it holds the None of the new row, so \<^verbatim>\<open>a.equals(b)\<close> is false
  while no value differs, and \<^verbatim>\<open>diff[diff].index[0]\<close> raises IndexError. The run ends
  with that exception and no file written.
\<close>

theorem check_B_dtype_mismatch:
  "\<exists>base_rows merged_rows.
     iter_detail_keys (JArr ex_int_base) = Inr [HTuple [HNum 1, HNum 1], HTuple [HNum 1, HNum 2]]
   \<and> iter_detail_keys (JArr ex_none_delta) = Inr [HTuple [HNum 2, HNum 1]]
   \<and> build_rows (JArr ex_int_base) Map.empty None = Inr base_rows
   \<and> build_rows (JArr (ex_int_base @ ex_none_delta)) Map.empty
        (Some (set [HTuple [HNum 2, HNum 1]] - set [HTuple [HNum 1, HNum 1], HTuple [HNum 1, HNum 2]]))
        = Inr merged_rows
   \<and> length base_rows = 2
   \<and> filter (\<lambda>r. \<not> r_is_new r) merged_rows = base_rows
   \<and> check_A (set [HTuple [HNum 2, HNum 1]] - set [HTuple [HNum 1, HNum 1], HTuple [HNum 1, HNum 2]])
        merged_rows = Inr ()
   \<and> check_B base_rows merged_rows = Inl IndexError
   \<and> run_pipeline ex_int_files ex_csv_files (\<lambda>p. Inr 3)
       = \<lparr>written = [], raised = Some IndexError\<rparr>"
proof -
  define N where
    "N = set [HTuple [HNum 2, HNum 1]] - set [HTuple [HNum 1, HNum 1], HTuple [HNum 1, HNum 2]]"
  have bk: "iter_detail_keys (JArr ex_int_base) = Inr [HTuple [HNum 1, HNum 1], HTuple [HNum 1, HNum 2]]"
    by (simp add: ex_int_base_def iter_detail_keys_def order_detail_keys_def detail_key_def
          hash_tuple_def)
  have dk: "iter_detail_keys (JArr ex_none_delta) = Inr [HTuple [HNum 2, HNum 1]]"
    by (simp add: ex_none_delta_def iter_detail_keys_def order_detail_keys_def detail_key_def
          hash_tuple_def)
  have "\<exists>base_rows. build_rows (JArr ex_int_base) Map.empty None = Inr base_rows
      \<and> length base_rows = 2"
    by (simp add: ex_int_base_def ex_eval)
  then obtain base_rows where b: "build_rows (JArr ex_int_base) Map.empty None = Inr base_rows"
    and len: "length base_rows = 2"
    by blast
  have "\<exists>merged_rows. build_rows (JArr (ex_int_base @ ex_none_delta)) Map.empty (Some N)
      = Inr merged_rows"
    by (simp add: N_def ex_int_base_def ex_none_delta_def ex_eval)
  then obtain merged_rows where
    m: "build_rows (JArr (ex_int_base @ ex_none_delta)) Map.empty (Some N) = Inr merged_rows"
    by blast
  have same: "filter (\<lambda>r. \<not> r_is_new r) merged_rows = base_rows"
    using old_rows_same [OF bk dk b] m by (simp add: N_def)
  have "merged_rows \<noteq> []"
    using same len by auto
  then have a: "check_A N merged_rows = Inr ()"
    using check_A_on_merged_rows [OF bk dk] m by (simp add: N_def)
  have "\<forall>br mr. build_rows (JArr ex_int_base) Map.empty None = Inr br
      \<longrightarrow> build_rows (JArr (ex_int_base @ ex_none_delta)) Map.empty (Some N) = Inr mr
      \<longrightarrow> check_B br mr = Inl IndexError"
    by (simp add: N_def ex_int_base_def ex_none_delta_def ex_eval check_eval)
  from this [rule_format, OF b m] have cb: "check_B base_rows merged_rows = Inl IndexError" .
  have r: "run_pipeline ex_int_files ex_csv_files (\<lambda>p. Inr 3)
       = \<lparr>written = [], raised = Some IndexError\<rparr>"
    by (simp add: ex_int_files_def ex_int_base_def ex_none_delta_def ex_csv_pair run_eval
          check_eval)
  show ?thesis
    by (rule exI [of _ base_rows], rule exI [of _ merged_rows], intro conjI)
       (rule bk dk b m [unfolded N_def] len same a [unfolded N_def] cb r)+
qed

text \<open>
  C9. A failed check A, B or C ends steps 5 to 10 with an exception and with no file
  written; and whenever a run has written a file, steps 1 to 4 have produced their frames
  and the three checks have passed on them.
\<close>

theorem checks_before_writes:
  "(check_A (fr_delta_only_keys fr) (fr_df_merged fr) \<noteq> Inr ()
      \<or> check_B (fr_df_base fr) (fr_df_merged fr) \<noteq> Inr ()
      \<or> check_C (fr_df_merged fr) \<noteq> Inr ()
    \<longrightarrow> written (steps_5_to_10 fr orig_full) = [] \<and> raised (steps_5_to_10 fr orig_full) \<noteq> None)
   \<and> (written (run_pipeline json_paths csv_paths read_csv) \<noteq> []
    \<longrightarrow> (\<exists>fr'. steps_1_to_4 json_paths csv_paths = Inr fr'
          \<and> check_A (fr_delta_only_keys fr') (fr_df_merged fr') = Inr ()
          \<and> check_B (fr_df_base fr') (fr_df_merged fr') = Inr ()
          \<and> check_C (fr_df_merged fr') = Inr ()))"
proof (intro conjI impI)
  assume "check_A (fr_delta_only_keys fr) (fr_df_merged fr) \<noteq> Inr ()
      \<or> check_B (fr_df_base fr) (fr_df_merged fr) \<noteq> Inr ()
      \<or> check_C (fr_df_merged fr) \<noteq> Inr ()"
  then have "\<exists>e. bind_err (check_A (fr_delta_only_keys fr) (fr_df_merged fr)) (\<lambda>_.
           bind_err (check_B (fr_df_base fr) (fr_df_merged fr)) (\<lambda>_.
           bind_err (check_C (fr_df_merged fr)) (\<lambda>_.
           bind_err orig_full (\<lambda>n.
           Inr (int (length (fr_df_merged fr)) - int n))))) = Inl e"
    by (cases "check_A (fr_delta_only_keys fr) (fr_df_merged fr)";
        cases "check_B (fr_df_base fr) (fr_df_merged fr)";
        cases "check_C (fr_df_merged fr)") auto
  then show "written (steps_5_to_10 fr orig_full) = []"
    and "raised (steps_5_to_10 fr orig_full) \<noteq> None"
    by (auto simp: steps_5_to_10_def)
next
  assume w: "written (run_pipeline json_paths csv_paths read_csv) \<noteq> []"
  then obtain fr' where fr': "steps_1_to_4 json_paths csv_paths = Inr fr'"
    by (cases "steps_1_to_4 json_paths csv_paths") (auto simp: run_pipeline_def)
  with w have w': "written (steps_5_to_10 fr' (read_csv (fr_full_csv fr'))) \<noteq> []"
    by (simp add: run_pipeline_def)
  have "check_A (fr_delta_only_keys fr') (fr_df_merged fr') = Inr ()
      \<and> check_B (fr_df_base fr') (fr_df_merged fr') = Inr ()
      \<and> check_C (fr_df_merged fr') = Inr ()"
    using w'
    by (cases "check_A (fr_delta_only_keys fr') (fr_df_merged fr')";
        cases "check_B (fr_df_base fr') (fr_df_merged fr')";
        cases "check_C (fr_df_merged fr')")
       (auto simp: steps_5_to_10_def)
  with fr' show "\<exists>fr'. steps_1_to_4 json_paths csv_paths = Inr fr'
          \<and> check_A (fr_delta_only_keys fr') (fr_df_merged fr') = Inr ()
          \<and> check_B (fr_df_base fr') (fr_df_merged fr') = Inr ()
          \<and> check_C (fr_df_merged fr') = Inr ()"
    by blast
qed

lemma ex_run:
  "map fst (written (run_pipeline ex_json_files ex_csv_files (\<lambda>p. Inr 3)))
     = [''merged_products_out.json'', ''merged_invoices_out.json'',
        ''updated_full_future_schema.csv'', ''updated_mini.csv'',
        ''new_purchases_enriched.csv'']"
  by (simp add: ex_json_files_def ex_base_def ex_delta_def ex_csv_pair run_eval check_eval
        to_csv_def mini_df_def)

theorem checks_before_writes_witness:
  "check_A (fr_delta_only_keys ex_bad_frames) (fr_df_merged ex_bad_frames) \<noteq> Inr ()
   \<and> written (steps_5_to_10 ex_bad_frames (Inr 0)) = []
   \<and> raised (steps_5_to_10 ex_bad_frames (Inr 0)) \<noteq> None
   \<and> written (run_pipeline ex_json_files ex_csv_files (\<lambda>p. Inr 3)) \<noteq> []
   \<and> (\<exists>fr'. steps_1_to_4 ex_json_files ex_csv_files = Inr fr'
          \<and> check_A (fr_delta_only_keys fr') (fr_df_merged fr') = Inr ()
          \<and> check_B (fr_df_base fr') (fr_df_merged fr') = Inr ()
          \<and> check_C (fr_df_merged fr') = Inr ())"
proof -
  note rule = checks_before_writes
    [of ex_bad_frames "Inr 0" ex_json_files ex_csv_files "\<lambda>p. Inr 3"]
  have a: "check_A (fr_delta_only_keys ex_bad_frames) (fr_df_merged ex_bad_frames) \<noteq> Inr ()"
    by (simp add: ex_bad_frames_def ex_rows_def check_A_def ex_base_def ex_eval)
  then have "check_A (fr_delta_only_keys ex_bad_frames) (fr_df_merged ex_bad_frames) \<noteq> Inr ()
      \<or> check_B (fr_df_base ex_bad_frames) (fr_df_merged ex_bad_frames) \<noteq> Inr ()
      \<or> check_C (fr_df_merged ex_bad_frames) \<noteq> Inr ()"
    by (rule disjI1)
  with rule [THEN conjunct1] have p1: "written (steps_5_to_10 ex_bad_frames (Inr 0)) = []
      \<and> raised (steps_5_to_10 ex_bad_frames (Inr 0)) \<noteq> None"
    by (rule mp)
  have w: "written (run_pipeline ex_json_files ex_csv_files (\<lambda>p. Inr 3)) \<noteq> []"
    using ex_run by auto
  with rule [THEN conjunct2] have p2: "\<exists>fr'. steps_1_to_4 ex_json_files ex_csv_files = Inr fr'
          \<and> check_A (fr_delta_only_keys fr') (fr_df_merged fr') = Inr ()
          \<and> check_B (fr_df_base fr') (fr_df_merged fr') = Inr ()
          \<and> check_C (fr_df_merged fr') = Inr ()"
    by (rule mp)
  show ?thesis
    by (intro conjI) (rule a p1 [THEN conjunct1] p1 [THEN conjunct2] w p2)+
qed

end
